theory Spec2Isabelle
  imports Main "HOL-Library.Word"
begin

section \<open>Images, byte buffers and the imaging library\<close>

text \<open>
  The three size-targeting loops of the repository are
  \<^item> \<open>ImageOptimizer.optimize_for_retail\<close> and \<open>ImageOptimizer.optimize_export\<close> in
    \<^verbatim>\<open>backend/services/image_processing.py\<close>, and
  \<^item> \<open>recursive_optimize_export\<close> in \<^verbatim>\<open>MODULE_C_ImageOptimizer.py\<close>.

  They call the Pillow library for everything that touches pixels. The library is not
  part of the repository, so its operations are parameters of the model, collected in the
  record \<open>pil\<close>; what the repository's code fixes itself (the mode and size it asks for,
  the quality it passes, the order of the calls) is written out in the definitions.
\<close>

type_synonym bytes = "8 word list"

text \<open>A decoded image: Pillow's \<^verbatim>\<open>img.mode\<close>, \<^verbatim>\<open>img.width\<close>, \<^verbatim>\<open>img.height\<close> and the raster.\<close>

record image =
  mode :: string
  width :: nat
  height :: nat
  pixels :: "nat list"

text \<open>
  The library calls the code makes. \<open>Image_open\<close> and \<open>save_JPEG\<close> may raise (the left
  summand carries \<^verbatim>\<open>str(e)\<close>); the three raster operations return the new pixel data.
\<close>

record pil =
  Image_open :: "bytes \<Rightarrow> string + image"
  paste_alpha :: "image \<Rightarrow> nat list"
  convert_pixels :: "image \<Rightarrow> nat list"
  resize_pixels :: "image \<Rightarrow> nat \<Rightarrow> nat \<Rightarrow> nat list"
  save_JPEG :: "image \<Rightarrow> int \<Rightarrow> string + bytes"

text \<open>A Python call either raises \<^verbatim>\<open>Exception(msg)\<close> or returns.\<close>

datatype 'a outcome = Raised string | Returned 'a

text \<open>One call of \<^verbatim>\<open>img.save(..., format="JPEG", quality=q, optimize=True)\<close>: its arguments.\<close>

record attempt =
  att_image :: image
  att_quality :: int

text \<open>
  What a loop hands back: the returned buffer, together with the locals \<^verbatim>\<open>quality\<close>,
  \<^verbatim>\<open>iteration\<close> and the working image as they stand at the \<^verbatim>\<open>return\<close>, and whether the
  code took the success path (\<open>metBudget\<close>) or the one that prints
  \<^verbatim>\<open>[WARNING] Could not ...\<close>.
\<close>

record opt_result =
  out_bytes :: bytes
  out_quality :: int
  out_iteration :: int
  out_image :: image
  metBudget :: bool

text \<open>
  \<^verbatim>\<open>background = Image.new("RGB", image.size, (255, 255, 255))\<close> followed by
  \<^verbatim>\<open>background.paste(image, mask=image.split()[3])\<close>: a new RGB image of the same size.
\<close>

definition flatten_white :: "pil \<Rightarrow> image \<Rightarrow> image" where
  "flatten_white L im =
     \<lparr>mode = ''RGB'', width = width im, height = height im, pixels = paste_alpha L im\<rparr>"

text \<open>\<^verbatim>\<open>image.convert("RGB")\<close>: a new RGB image of the same size.\<close>

definition convert_RGB :: "pil \<Rightarrow> image \<Rightarrow> image" where
  "convert_RGB L im =
     \<lparr>mode = ''RGB'', width = width im, height = height im, pixels = convert_pixels L im\<rparr>"

text \<open>\<^verbatim>\<open>img.resize((w, h), Image.Resampling.LANCZOS)\<close>: same mode, the size asked for.\<close>

definition resize :: "pil \<Rightarrow> image \<Rightarrow> nat \<Rightarrow> nat \<Rightarrow> image" where
  "resize L im w h = \<lparr>mode = mode im, width = w, height = h, pixels = resize_pixels L im w h\<rparr>"


section \<open>optimize_for_retail\<close>

text \<open>Lines 338-346: the conversion to RGB.\<close>

definition retail_to_rgb :: "pil \<Rightarrow> image \<Rightarrow> image" where
  "retail_to_rgb L im =
     (if mode im \<noteq> ''RGB''
      then (if mode im = ''RGBA'' then flatten_white L im else convert_RGB L im)
      else im)"

text \<open>
  Lines 348-381: the loop, entered with \<^verbatim>\<open>quality = 95\<close> and \<^verbatim>\<open>iteration = 0\<close>;
  \<^verbatim>\<open>target_size_kb = 500\<close> and \<^verbatim>\<open>max_iterations = 20\<close> are literals of the source.
  \<^verbatim>\<open>file_size_kb = len(buf) / 1024\<close> is a float, but dividing by 1024 is exact, so
  \<^verbatim>\<open>file_size_kb < 500\<close> is \<open>length buf < 500 * 1024\<close>.
  The second component is the list of encoder calls made, in order.
\<close>

function retail_loop :: "pil \<Rightarrow> image \<Rightarrow> int \<Rightarrow> int \<Rightarrow> opt_result outcome \<times> attempt list" where
  "retail_loop L im quality iteration =
     (if iteration < 20 then
        (case save_JPEG L im quality of
           Inl e \<Rightarrow> (Raised e, [\<lparr>att_image = im, att_quality = quality\<rparr>])
         | Inr output_buffer \<Rightarrow>
             if int (length output_buffer) < 500 * 1024
             then (Returned \<lparr>out_bytes = output_buffer, out_quality = quality,
                     out_iteration = iteration + 1, out_image = im, metBudget = True\<rparr>,
                   [\<lparr>att_image = im, att_quality = quality\<rparr>])
             else if quality - 5 < 10
             then (Returned \<lparr>out_bytes = output_buffer, out_quality = quality - 5,
                     out_iteration = iteration + 1, out_image = im, metBudget = False\<rparr>,
                   [\<lparr>att_image = im, att_quality = quality\<rparr>])
             else (case retail_loop L im (quality - 5) (iteration + 1) of
                     (r, log) \<Rightarrow> (r, \<lparr>att_image = im, att_quality = quality\<rparr> # log)))
      else (Raised ''Optimization failed after 20 iterations'', []))"
  by pat_completeness auto
termination
  by (relation "measure (\<lambda>(L, im, quality, iteration). nat (20 - iteration))") auto

text \<open>Lines 337-384: every exception inside the \<^verbatim>\<open>try\<close> is re-raised with a prefix.\<close>

definition optimize_for_retail :: "pil \<Rightarrow> image \<Rightarrow> opt_result outcome \<times> attempt list" where
  "optimize_for_retail L im =
     (case retail_loop L (retail_to_rgb L im) 95 0 of
        (Raised e, log) \<Rightarrow> (Raised (''Error in optimize_for_retail: '' @ e), log)
      | (Returned r, log) \<Rightarrow> (Returned r, log))"

text \<open>
  The caller hands \<open>optimize_for_retail\<close> an image object, and Python passes it by
  reference. To speak about that object after the call, images live in a store of
  objects: \<open>objects\<close> maps an address to the image it holds, and addresses from
  \<open>next_free\<close> on are unused. \<^verbatim>\<open>Image.new\<close> and \<^verbatim>\<open>convert\<close> allocate a new object.
\<close>

record store =
  objects :: "nat \<rightharpoonup> image"
  next_free :: nat

definition allocate :: "image \<Rightarrow> store \<Rightarrow> nat \<times> store" where
  "allocate im s =
     (next_free s,
      s\<lparr>objects := (objects s)(next_free s \<mapsto> im), next_free := Suc (next_free s)\<rparr>)"

text \<open>
  Lines 338-346 on the store. For an RGBA image \<^verbatim>\<open>background = Image.new(...)\<close> is a new
  object, \<^verbatim>\<open>background.paste(image, ...)\<close> writes into that new object, which ends up holding
  \<open>flatten_white L im\<close>, and \<^verbatim>\<open>image = background\<close> rebinds the local name. For the other
  modes \<^verbatim>\<open>image = image.convert('RGB')\<close> binds the name to the new object \<^verbatim>\<open>convert\<close>
  returns. An RGB image is not copied: the name keeps pointing at the caller's object.
  The result is the address the local name \<^verbatim>\<open>image\<close> points at, and the store.
\<close>

definition retail_to_rgb_at :: "pil \<Rightarrow> nat \<Rightarrow> image \<Rightarrow> store \<Rightarrow> nat \<times> store" where
  "retail_to_rgb_at L a im s =
     (if mode im \<noteq> ''RGB''
      then (if mode im = ''RGBA'' then allocate (flatten_white L im) s
            else allocate (convert_RGB L im) s)
      else (a, s))"

text \<open>
  \<open>optimize_for_retail\<close> called with the object at address \<open>a\<close>. The loop only reads the
  working object (\<^verbatim>\<open>image.save(output_buffer, ...)\<close> writes into a \<^verbatim>\<open>BytesIO\<close> of its own),
  so the store it leaves is the one after the conversion. A call with an address that
  holds no object is not a call of the function: \<open>None\<close>.
\<close>

definition optimize_for_retail_at ::
  "pil \<Rightarrow> nat \<Rightarrow> store \<Rightarrow> ((opt_result outcome \<times> attempt list) \<times> store) option" where
  "optimize_for_retail_at L a s =
     (case objects s a of
        None \<Rightarrow> None
      | Some im \<Rightarrow>
          (case retail_to_rgb_at L a im s of
             (w, s') \<Rightarrow>
               (case objects s' w of
                  None \<Rightarrow> None
                | Some working \<Rightarrow>
                    Some ((case retail_loop L working 95 0 of
                             (Raised e, log) \<Rightarrow>
                               (Raised (''Error in optimize_for_retail: '' @ e), log)
                           | (Returned r, log) \<Rightarrow> (Returned r, log)),
                          s'))))"

section \<open>optimize_export\<close>

text \<open>
  \<^verbatim>\<open>int(img.width * 0.95)\<close>. The product is a float; for every size an image can have it
  truncates to \<open>\<lfloor>19 w / 20\<rfloor>\<close> (the error of the double nearest to 0.95 is below half a
  unit in the last place of the product, and a non-integral \<open>19 w / 20\<close> is at least
  \<open>1/20\<close> away from an integer).
\<close>

definition scale95 :: "nat \<Rightarrow> nat" where
  "scale95 w = (w * 19) div 20"

text \<open>Lines 413-421: only the modes \<^verbatim>\<open>"RGBA"\<close>, \<^verbatim>\<open>"LA"\<close> and \<^verbatim>\<open>"P"\<close> are converted.\<close>

definition export_to_rgb :: "pil \<Rightarrow> image \<Rightarrow> image" where
  "export_to_rgb L img =
     (if mode img \<in> {''RGBA'', ''LA'', ''P''}
      then (if mode img = ''RGBA'' then flatten_white L img else convert_RGB L img)
      else img)"

text \<open>Lines 428-453: the loop and the return after it.\<close>

function export_loop ::
  "pil \<Rightarrow> int \<Rightarrow> int \<Rightarrow> image \<Rightarrow> int \<Rightarrow> int \<Rightarrow> int \<Rightarrow> bytes \<Rightarrow> opt_result outcome \<times> attempt list"
where
  "export_loop L target_bytes max_iterations img quality iteration current_size optimized_data =
     (if current_size > target_bytes \<and> iteration < max_iterations then
        (let quality' = max 10 (quality - 5);
             new_width = max 100 (scale95 (width img));
             new_height = max 100 (scale95 (height img));
             img' = resize L img new_width new_height
         in case save_JPEG L img' quality' of
              Inl e \<Rightarrow> (Raised e, [\<lparr>att_image = img', att_quality = quality'\<rparr>])
            | Inr output \<Rightarrow>
                (case export_loop L target_bytes max_iterations img' quality' (iteration + 1)
                        (int (length output)) output of
                   (r, log) \<Rightarrow> (r, \<lparr>att_image = img', att_quality = quality'\<rparr> # log)))
      else (Returned \<lparr>out_bytes = optimized_data, out_quality = quality,
              out_iteration = iteration, out_image = img,
              metBudget = (\<not> current_size > target_bytes)\<rparr>, []))"
  by pat_completeness auto
termination
  by (relation "measure (\<lambda>(L, tb, max_iterations, img, q, iteration, cs, d).
                    nat (max_iterations - iteration))") auto

text \<open>Lines 407-456, with the defaults \<^verbatim>\<open>target_size_kb = 500\<close>, \<^verbatim>\<open>max_iterations = 10\<close>
  left to the caller.\<close>

definition optimize_export ::
  "pil \<Rightarrow> bytes \<Rightarrow> int \<Rightarrow> int \<Rightarrow> opt_result outcome \<times> attempt list" where
  "optimize_export L image_data target_size_kb max_iterations =
     (case Image_open L image_data of
        Inl e \<Rightarrow> (Raised (''Error optimizing export: '' @ e), [])
      | Inr img \<Rightarrow>
          (case export_loop L (target_size_kb * 1024) max_iterations (export_to_rgb L img)
                  85 0 (int (length image_data)) image_data of
             (Raised e, log) \<Rightarrow> (Raised (''Error optimizing export: '' @ e), log)
           | (Returned r, log) \<Rightarrow> (Returned r, log)))"

section \<open>recursive_optimize_export\<close>

text \<open>The files on disk: a path either has no file or holds bytes.\<close>

type_synonym files = "string \<rightharpoonup> bytes"

definition MAX_FILE_SIZE_KB :: int where "MAX_FILE_SIZE_KB = 500"
definition QUALITY_START :: int where "QUALITY_START = 95"
definition QUALITY_MIN :: int where "QUALITY_MIN = 65"
definition QUALITY_STEP :: int where "QUALITY_STEP = 5"

text \<open>
  What the call leaves behind: the value returned (\<^verbatim>\<open>None\<close> or the path), the files
  afterwards and the encoder calls made.
\<close>

record export_run =
  returned :: "string option"
  disk :: files
  saves :: "attempt list"

text \<open>Lines 64-68: only mode \<^verbatim>\<open>"RGBA"\<close> is flattened.\<close>

definition module_c_to_rgb :: "pil \<Rightarrow> image \<Rightarrow> image" where
  "module_c_to_rgb L img = (if mode img = ''RGBA'' then flatten_white L img else img)"

text \<open>
  Lines 75-94. \<^verbatim>\<open>file_size_kb = os.path.getsize(file_path) / 1024\<close> is carried as the size in
  bytes, \<^verbatim>\<open>file_size_kb > MAX_FILE_SIZE_KB\<close> being \<open>file_size > MAX_FILE_SIZE_KB * 1024\<close>.
  A \<^verbatim>\<open>save\<close> that raises ends the call in the \<^verbatim>\<open>except\<close> branch (lines 103-105); what the
  library left on disk by then is its own business, and the model keeps the files as they
  were before that call.
\<close>

function module_c_loop ::
  "pil \<Rightarrow> string \<Rightarrow> image \<Rightarrow> int \<Rightarrow> int \<Rightarrow> int \<Rightarrow> files \<Rightarrow> export_run" where
  "module_c_loop L file_path img quality iteration file_size fs =
     (if file_size > MAX_FILE_SIZE_KB * 1024 \<and> quality \<ge> QUALITY_MIN then
        (case save_JPEG L img (quality - QUALITY_STEP) of
           Inl e \<Rightarrow> \<lparr>returned = None, disk = fs,
                     saves = [\<lparr>att_image = img, att_quality = quality - QUALITY_STEP\<rparr>]\<rparr>
         | Inr data \<Rightarrow>
             if iteration + 1 \<ge> 20
             then \<lparr>returned = Some file_path, disk = fs(file_path \<mapsto> data),
                    saves = [\<lparr>att_image = img, att_quality = quality - QUALITY_STEP\<rparr>]\<rparr>
             else (let r = module_c_loop L file_path img (quality - QUALITY_STEP) (iteration + 1)
                             (int (length data)) (fs(file_path \<mapsto> data))
                   in r\<lparr>saves := \<lparr>att_image = img, att_quality = quality - QUALITY_STEP\<rparr> # saves r\<rparr>))
      else \<lparr>returned = Some file_path, disk = fs, saves = []\<rparr>)"
  by pat_completeness auto
termination
  by (relation "measure (\<lambda>(L, p, img, quality, iteration, sz, fs). nat (20 - iteration))") auto

text \<open>Lines 44-105.\<close>

definition recursive_optimize_export :: "pil \<Rightarrow> string \<Rightarrow> files \<Rightarrow> export_run" where
  "recursive_optimize_export L file_path fs =
     (case fs file_path of
        None \<Rightarrow> \<lparr>returned = None, disk = fs, saves = []\<rparr>
      | Some content \<Rightarrow>
          if int (length content) \<le> MAX_FILE_SIZE_KB * 1024
          then \<lparr>returned = Some file_path, disk = fs, saves = []\<rparr>
          else (case Image_open L content of
                  Inl e \<Rightarrow> \<lparr>returned = None, disk = fs, saves = []\<rparr>
                | Inr img \<Rightarrow>
                    module_c_loop L file_path (module_c_to_rgb L img) QUALITY_START 0
                      (int (length content)) fs))"

text \<open>Putting one more encoder call in front of the calls a run has recorded.\<close>

definition log_save :: "attempt \<Rightarrow> export_run \<Rightarrow> export_run" where
  "log_save a r = r\<lparr>saves := a # saves r\<rparr>"

section \<open>One step of the export loop\<close>

text \<open>
  The body of the \<^verbatim>\<open>while\<close> of \<open>optimize_export\<close> replaces the working image and the
  quality by these two values before it encodes; the \<open>k\<close>-th encoder call of a run
  therefore sees \<open>(next_image L ^^ k) img\<close> and \<open>(next_quality ^^ k) 85\<close>.
\<close>

definition next_image :: "pil \<Rightarrow> image \<Rightarrow> image" where
  "next_image L img =
     resize L img (max 100 (scale95 (width img))) (max 100 (scale95 (height img)))"

definition next_quality :: "int \<Rightarrow> int" where
  "next_quality q = max 10 (q - 5)"

section \<open>Sample inputs\<close>

text \<open>
  Concrete images, library behaviours and files on which the results below are
  evaluated. An encoder is given by the size of its output.
\<close>

text \<open>A buffer of \<open>n\<close> zero bytes.\<close>

definition blob :: "nat \<Rightarrow> bytes" where
  "blob n = replicate n 0"

definition sample_image :: "string \<Rightarrow> image" where
  "sample_image m = \<lparr>mode = m, width = 120, height = 120, pixels = []\<rparr>"

definition sample_pil :: "image \<Rightarrow> (image \<Rightarrow> int \<Rightarrow> string + bytes) \<Rightarrow> pil" where
  "sample_pil decoded enc =
     \<lparr>Image_open = (\<lambda>d. Inr decoded), paste_alpha = (\<lambda>im. []), convert_pixels = (\<lambda>im. []),
      resize_pixels = (\<lambda>im w h. []), save_JPEG = enc\<rparr>"

text \<open>Every encoding has 600000 bytes: no quality brings the image under 500 KB.\<close>

definition heavy_encoder :: "image \<Rightarrow> int \<Rightarrow> string + bytes" where
  "heavy_encoder im q = Inr (blob 600000)"

text \<open>6000 bytes per quality point: under 500 KB from quality 85 on.\<close>

definition linear_encoder :: "image \<Rightarrow> int \<Rightarrow> string + bytes" where
  "linear_encoder im q = Inr (blob (nat (q * 6000)))"

text \<open>Like the JPEG writer, an encoder that refuses every mode but RGB.\<close>

definition rgb_only_encoder :: "image \<Rightarrow> int \<Rightarrow> string + bytes" where
  "rgb_only_encoder im q =
     (if mode im = ''RGB'' then Inr (blob 600000) else Inl ''cannot write mode as JPEG'')"

text \<open>Exactly 1024 bytes at quality 80 and 900 bytes at every other quality.\<close>

definition boundary_encoder :: "image \<Rightarrow> int \<Rightarrow> string + bytes" where
  "boundary_encoder im q = Inr (blob (if q = 80 then 1024 else 900))"

text \<open>Exactly 1024 bytes at quality 80 and 2000 bytes at every other quality.\<close>

definition exact_encoder :: "image \<Rightarrow> int \<Rightarrow> string + bytes" where
  "exact_encoder im q = Inr (blob (if q = 80 then 1024 else 2000))"

text \<open>A source smaller than the 100 pixel floor of \<open>optimize_export\<close>.\<close>

definition small_image :: image where
  "small_image = \<lparr>mode = ''RGB'', width = 50, height = 50, pixels = []\<rparr>"

text \<open>An encoder that raises at quality 75 and gives 600000 bytes otherwise.\<close>

definition late_failing_encoder :: "image \<Rightarrow> int \<Rightarrow> string + bytes" where
  "late_failing_encoder im q = (if q = 75 then Inl ''encoder error'' else Inr (blob 600000))"

text \<open>A disk with an export of 600000 bytes and a second, small file.\<close>

definition big_file :: files where
  "big_file = [''out.jpg'' \<mapsto> blob 600000, ''logo.png'' \<mapsto> blob 100]"

text \<open>A store holding one RGBA image, at address 0.\<close>

definition sample_store :: store where
  "sample_store = \<lparr>objects = [0 \<mapsto> sample_image ''RGBA''], next_free = 1\<rparr>"

section \<open>Unfolding the loops\<close>

lemma length_blob [simp]: "length (blob n) = n"
  by (simp add: blob_def)

lemma blob_eq_iff [simp]: "blob m = blob n \<longleftrightarrow> m = n"
  by (metis length_blob)

declare retail_loop.simps [simp del]

lemma retail_loop_stop:
  "\<not> it < 20 \<Longrightarrow> retail_loop L im q it = (Raised ''Optimization failed after 20 iterations'', [])"
  by (subst retail_loop.simps) simp

lemma retail_loop_fail:
  "it < 20 \<Longrightarrow> save_JPEG L im q = Inl e \<Longrightarrow>
   retail_loop L im q it = (Raised e, [\<lparr>att_image = im, att_quality = q\<rparr>])"
  by (subst retail_loop.simps) simp

lemma retail_loop_met:
  "it < 20 \<Longrightarrow> save_JPEG L im q = Inr b \<Longrightarrow> int (length b) < 500 * 1024 \<Longrightarrow>
   retail_loop L im q it =
     (Returned \<lparr>out_bytes = b, out_quality = q, out_iteration = it + 1, out_image = im,
        metBudget = True\<rparr>, [\<lparr>att_image = im, att_quality = q\<rparr>])"
  by (subst retail_loop.simps) simp

lemma retail_loop_floor:
  "it < 20 \<Longrightarrow> save_JPEG L im q = Inr b \<Longrightarrow> \<not> int (length b) < 500 * 1024 \<Longrightarrow> q - 5 < 10 \<Longrightarrow>
   retail_loop L im q it =
     (Returned \<lparr>out_bytes = b, out_quality = q - 5, out_iteration = it + 1, out_image = im,
        metBudget = False\<rparr>, [\<lparr>att_image = im, att_quality = q\<rparr>])"
  by (subst retail_loop.simps) simp

lemma retail_loop_next:
  "it < 20 \<Longrightarrow> save_JPEG L im q = Inr b \<Longrightarrow> \<not> int (length b) < 500 * 1024 \<Longrightarrow> \<not> q - 5 < 10 \<Longrightarrow>
   retail_loop L im q it =
     (fst (retail_loop L im (q - 5) (it + 1)),
      \<lparr>att_image = im, att_quality = q\<rparr> # snd (retail_loop L im (q - 5) (it + 1)))"
  by (subst retail_loop.simps) (simp add: case_prod_beta)

lemma retail_loop_cases [case_names stop fail met floor continue]:
  assumes "\<not> (it::int) < 20 \<Longrightarrow> P"
    and "\<And>e. it < 20 \<Longrightarrow> save_JPEG L im q = Inl e \<Longrightarrow> P"
    and "\<And>b. it < 20 \<Longrightarrow> save_JPEG L im q = Inr b \<Longrightarrow> int (length b) < 500 * 1024 \<Longrightarrow> P"
    and "\<And>b. it < 20 \<Longrightarrow> save_JPEG L im q = Inr b \<Longrightarrow> \<not> int (length b) < 500 * 1024 \<Longrightarrow>
           q - 5 < 10 \<Longrightarrow> P"
    and "\<And>b. it < 20 \<Longrightarrow> save_JPEG L im q = Inr b \<Longrightarrow> \<not> int (length b) < 500 * 1024 \<Longrightarrow>
           \<not> q - 5 < 10 \<Longrightarrow> P"
  shows P
  using assms by (cases "save_JPEG L im q") blast+

lemma retail_loop_images:
  "att \<in> set (snd (retail_loop L im q it)) \<Longrightarrow> att_image att = im"
proof (induction L im q it rule: retail_loop.induct)
  case (1 L im q it)
  show ?case
  proof (cases rule: retail_loop_cases[where it=it and L=L and im=im and q=q])
    case stop
    with "1.prems" show ?thesis by (simp add: retail_loop_stop)
  next
    case (fail e)
    with "1.prems" show ?thesis by (simp add: retail_loop_fail)
  next
    case (met b)
    with "1.prems" show ?thesis by (simp add: retail_loop_met)
  next
    case (floor b)
    with "1.prems" show ?thesis by (simp add: retail_loop_floor)
  next
    case (continue b)
    with "1.prems" "1.IH"[of b] show ?thesis by (auto simp add: retail_loop_next)
  qed
qed

lemma retail_loop_qualities:
  "k < length (snd (retail_loop L im q it)) \<Longrightarrow>
     att_quality (snd (retail_loop L im q it) ! k) = q - 5 * int k"
proof (induction L im q it arbitrary: k rule: retail_loop.induct)
  case (1 L im q it)
  show ?case
  proof (cases rule: retail_loop_cases[where it=it and L=L and im=im and q=q])
    case stop
    with "1.prems" show ?thesis by (simp add: retail_loop_stop)
  next
    case (fail e)
    with "1.prems" show ?thesis by (simp add: retail_loop_fail)
  next
    case (met b)
    with "1.prems" show ?thesis by (simp add: retail_loop_met)
  next
    case (floor b)
    with "1.prems" show ?thesis by (simp add: retail_loop_floor)
  next
    case (continue b)
    with "1.prems" "1.IH"[of b] show ?thesis
      by (cases k) (auto simp add: retail_loop_next)
  qed
qed

lemmas retail_loop_unfold =
  retail_loop_stop retail_loop_fail retail_loop_met retail_loop_floor retail_loop_next

lemma retail_loop_nonempty: "it < 20 \<Longrightarrow> snd (retail_loop L im q it) \<noteq> []"
  by (cases rule: retail_loop_cases[where it=it and L=L and im=im and q=q])
     (simp_all add: retail_loop_unfold)

lemma retail_loop_length_cap: "length (snd (retail_loop L im q it)) \<le> nat (20 - it)"
proof (induction L im q it rule: retail_loop.induct)
  case (1 L im q it)
  show ?case
    by (cases rule: retail_loop_cases[where it=it and L=L and im=im and q=q])
       (use "1.IH" in \<open>auto simp: retail_loop_unfold\<close>)
qed

lemma retail_loop_length_quality:
  "10 \<le> q \<Longrightarrow> int (length (snd (retail_loop L im q it))) \<le> (q - 5) div 5"
proof (induction L im q it rule: retail_loop.induct)
  case (1 L im q it)
  show ?case
  proof (cases rule: retail_loop_cases[where it=it and L=L and im=im and q=q])
    case (continue b)
    with "1.IH"[of b] have "int (length (snd (retail_loop L im (q - 5) (it + 1)))) \<le> (q - 5 - 5) div 5"
      by simp
    with continue show ?thesis by (simp add: retail_loop_next)
  qed (use "1.prems" in \<open>simp_all add: retail_loop_unfold\<close>)
qed

lemma retail_loop_returned:
  assumes "retail_loop L im q it = (Returned r, log)"
  shows "log \<noteq> [] \<and> save_JPEG L im (att_quality (last log)) = Inr (out_bytes r) \<and>
         out_image r = im \<and> out_iteration r = it + int (length log) \<and>
         metBudget r = (int (length (out_bytes r)) < 500 * 1024) \<and>
         out_quality r = (if metBudget r then att_quality (last log) else att_quality (last log) - 5) \<and>
         (\<not> metBudget r \<longrightarrow> att_quality (last log) - 5 < 10)"
  using assms
proof (induction L im q it arbitrary: log rule: retail_loop.induct)
  case (1 L im q it)
  show ?case
  proof (cases rule: retail_loop_cases[where it=it and L=L and im=im and q=q])
    case (continue b)
    obtain log' where l': "retail_loop L im (q - 5) (it + 1) = (Returned r, log')"
      and l: "log = \<lparr>att_image = im, att_quality = q\<rparr> # log'"
      using "1.prems" continue by (cases "retail_loop L im (q - 5) (it + 1)") (simp add: retail_loop_next)
    from "1.IH"[OF continue(1,2) _ _ l'] continue l show ?thesis by simp
  qed (use "1.prems" in \<open>auto simp: retail_loop_unfold\<close>)
qed

lemma retail_loop_raised:
  assumes "retail_loop L im q it = (Raised e, log)" and "10 \<le> q" and "q + 5 * it \<le> 95"
  shows "log \<noteq> [] \<and> save_JPEG L im (att_quality (last log)) = Inl e"
  using assms
proof (induction L im q it arbitrary: log rule: retail_loop.induct)
  case (1 L im q it)
  show ?case
  proof (cases rule: retail_loop_cases[where it=it and L=L and im=im and q=q])
    case (continue b)
    obtain log' where l': "retail_loop L im (q - 5) (it + 1) = (Raised e, log')"
      and l: "log = \<lparr>att_image = im, att_quality = q\<rparr> # log'"
      using "1.prems" continue by (cases "retail_loop L im (q - 5) (it + 1)") (simp add: retail_loop_next)
    from "1.IH"[OF continue(1,2) _ _ l'] continue l "1.prems"(2,3) show ?thesis by simp
  qed (use "1.prems" in \<open>auto simp: retail_loop_unfold\<close>)
qed

lemma retail_loop_butlast:
  "att \<in> set (butlast (snd (retail_loop L im q it))) \<Longrightarrow>
     \<exists>b. save_JPEG L im (att_quality att) = Inr b \<and> \<not> int (length b) < 500 * 1024"
proof (induction L im q it rule: retail_loop.induct)
  case (1 L im q it)
  show ?case
  proof (cases rule: retail_loop_cases[where it=it and L=L and im=im and q=q])
    case (continue b)
    with "1.prems" "1.IH"[of b] show ?thesis
      by (auto simp: retail_loop_next split: if_splits)
  qed (use "1.prems" in \<open>auto simp: retail_loop_unfold\<close>)
qed

lemma retail_loop_reaches:
  assumes "save_JPEG L im (q - 5 * int k) = Inr b" and "int (length b) < 500 * 1024"
    and "10 \<le> q - 5 * int k" and "it + int k < 20"
    and "\<forall>j<k. \<exists>c. save_JPEG L im (q - 5 * int j) = Inr c"
  shows "\<exists>r. fst (retail_loop L im q it) = Returned r \<and> metBudget r"
  using assms
proof (induction L im q it arbitrary: k rule: retail_loop.induct)
  case (1 L im q it)
  show ?case
  proof (cases rule: retail_loop_cases[where it=it and L=L and im=im and q=q])
    case stop
    with "1.prems" show ?thesis by simp
  next
    case (fail e)
    with "1.prems" show ?thesis by (cases k) auto
  next
    case (met c)
    then show ?thesis by (simp add: retail_loop_met)
  next
    case (floor c)
    with "1.prems" show ?thesis by (cases k) auto
  next
    case (continue c)
    with "1.prems" obtain k' where k: "k = Suc k'" by (cases k) auto
    have "\<exists>r. fst (retail_loop L im (q - 5) (it + 1)) = Returned r \<and> metBudget r"
    proof (rule "1.IH"[OF continue(1,2) _ _, of k' ])
      show "\<not> int (length c) < 500 * 1024" using continue by simp
      show "\<not> q - 5 < 10" using continue by simp
      show "save_JPEG L im (q - 5 - 5 * int k') = Inr b" using "1.prems"(1) k by (simp add: algebra_simps)
      show "int (length b) < 500 * 1024" by fact
      show "10 \<le> q - 5 - 5 * int k'" using "1.prems"(3) k by simp
      show "it + 1 + int k' < 20" using "1.prems"(4) k by simp
      show "\<forall>j<k'. \<exists>c. save_JPEG L im (q - 5 - 5 * int j) = Inr c"
      proof (intro allI impI)
        fix j assume "j < k'"
        then have "Suc j < k" using k by simp
        with "1.prems"(5) obtain d where "save_JPEG L im (q - 5 * int (Suc j)) = Inr d" by blast
        then show "\<exists>c. save_JPEG L im (q - 5 - 5 * int j) = Inr c" by (simp add: algebra_simps)
      qed
    qed
    with continue show ?thesis by (simp add: retail_loop_next)
  qed
qed

declare export_loop.simps [simp del]

lemma export_loop_done:
  "\<not> (cs > tb \<and> it < m) \<Longrightarrow>
   export_loop L tb m img q it cs d =
     (Returned \<lparr>out_bytes = d, out_quality = q, out_iteration = it, out_image = img,
        metBudget = (\<not> cs > tb)\<rparr>, [])"
  by (subst export_loop.simps) auto

lemma export_loop_fail:
  "cs > tb \<Longrightarrow> it < m \<Longrightarrow> save_JPEG L (next_image L img) (next_quality q) = Inl e \<Longrightarrow>
   export_loop L tb m img q it cs d =
     (Raised e, [\<lparr>att_image = next_image L img, att_quality = next_quality q\<rparr>])"
  by (subst export_loop.simps) (simp add: next_image_def next_quality_def Let_def)

lemma export_loop_next:
  "cs > tb \<Longrightarrow> it < m \<Longrightarrow> save_JPEG L (next_image L img) (next_quality q) = Inr out \<Longrightarrow>
   export_loop L tb m img q it cs d =
     (fst (export_loop L tb m (next_image L img) (next_quality q) (it + 1) (int (length out)) out),
      \<lparr>att_image = next_image L img, att_quality = next_quality q\<rparr> #
      snd (export_loop L tb m (next_image L img) (next_quality q) (it + 1) (int (length out)) out))"
  by (subst export_loop.simps) (simp add: next_image_def next_quality_def Let_def case_prod_beta)

lemmas export_loop_unfold = export_loop_done export_loop_fail export_loop_next

lemma export_loop_cases [case_names exit fail continue]:
  assumes "\<not> ((cs::int) > tb \<and> (it::int) < m) \<Longrightarrow> P"
    and "\<And>e. cs > tb \<Longrightarrow> it < m \<Longrightarrow> save_JPEG L (next_image L img) (next_quality q) = Inl e \<Longrightarrow> P"
    and "\<And>out. cs > tb \<Longrightarrow> it < m \<Longrightarrow>
           save_JPEG L (next_image L img) (next_quality q) = Inr out \<Longrightarrow> P"
  shows P
  using assms by (cases "save_JPEG L (next_image L img) (next_quality q)") blast+

lemma export_loop_induct [case_names step]:
  assumes "\<And>L (tb::int) (m::int) img (q::int) (it::int) (cs::int) (d::bytes).
     (\<And>out. cs > tb \<Longrightarrow> it < m \<Longrightarrow> save_JPEG L (next_image L img) (next_quality q) = Inr out \<Longrightarrow>
        P L tb m (next_image L img) (next_quality q) (it + 1) (int (length out)) out) \<Longrightarrow>
     P L tb m img q it cs d"
  shows "P L tb m img q it cs d"
proof (induction L tb m img q it cs d rule: export_loop.induct)
  case (1 L tb m img q it cs d)
  show ?case
    by (rule assms) (use "1.IH" in \<open>simp add: next_image_def next_quality_def\<close>)
qed

lemma export_loop_length: "length (snd (export_loop L tb m img q it cs d)) \<le> nat (m - it)"
proof (induction L tb m img q it cs d rule: export_loop_induct)
  case (step L tb m img q it cs d)
  show ?case
    by (cases rule: export_loop_cases[where cs=cs and tb=tb and it=it and m=m and L=L and img=img and q=q])
       (use step in \<open>auto simp: export_loop_unfold\<close>)
qed

lemma export_loop_attempts:
  "k < length (snd (export_loop L tb m img q it cs d)) \<Longrightarrow>
   snd (export_loop L tb m img q it cs d) ! k =
     \<lparr>att_image = (next_image L ^^ Suc k) img, att_quality = (next_quality ^^ Suc k) q\<rparr>"
proof (induction L tb m img q it cs d arbitrary: k rule: export_loop_induct)
  case (step L tb m img q it cs d)
  show ?case
  proof (cases rule: export_loop_cases[where cs=cs and tb=tb and it=it and m=m and L=L and img=img and q=q])
    case (continue out)
    with step.prems step.IH[of out] show ?thesis
      by (cases k) (auto simp: export_loop_next funpow_swap1)
  qed (use step.prems in \<open>auto simp: export_loop_unfold\<close>)
qed

lemma export_loop_returned:
  assumes "export_loop L tb m img q it cs d = (Returned r, log)" and "cs = int (length d)"
  shows "metBudget r = (int (length (out_bytes r)) \<le> tb) \<and>
         out_iteration r = it + int (length log) \<and>
         (log = [] \<longrightarrow> out_bytes r = d \<and> out_quality r = q \<and> out_image r = img) \<and>
         (log \<noteq> [] \<longrightarrow>
            save_JPEG L (att_image (last log)) (att_quality (last log)) = Inr (out_bytes r) \<and>
            out_quality r = att_quality (last log) \<and> out_image r = att_image (last log)) \<and>
         (\<not> metBudget r \<longrightarrow> m \<le> it + int (length log))"
  using assms
proof (induction L tb m img q it cs d arbitrary: log rule: export_loop_induct)
  case (step L tb m img q it cs d)
  show ?case
  proof (cases rule: export_loop_cases[where cs=cs and tb=tb and it=it and m=m and L=L and img=img and q=q])
    case (continue out)
    let ?rec = "export_loop L tb m (next_image L img) (next_quality q) (it + 1) (int (length out)) out"
    obtain log' where l': "?rec = (Returned r, log')"
      and l: "log = \<lparr>att_image = next_image L img, att_quality = next_quality q\<rparr> # log'"
      using step.prems continue by (cases ?rec) (simp add: export_loop_next)
    from step.IH[OF continue l'] l continue show ?thesis
      by (cases "log' = []") auto
  qed (use step.prems in \<open>auto simp: export_loop_unfold\<close>)
qed

lemma export_loop_raised:
  assumes "export_loop L tb m img q it cs d = (Raised e, log)"
  shows "log \<noteq> [] \<and> save_JPEG L (att_image (last log)) (att_quality (last log)) = Inl e"
  using assms
proof (induction L tb m img q it cs d arbitrary: log rule: export_loop_induct)
  case (step L tb m img q it cs d)
  show ?case
  proof (cases rule: export_loop_cases[where cs=cs and tb=tb and it=it and m=m and L=L and img=img and q=q])
    case (continue out)
    let ?rec = "export_loop L tb m (next_image L img) (next_quality q) (it + 1) (int (length out)) out"
    obtain log' where l': "?rec = (Raised e, log')"
      and l: "log = \<lparr>att_image = next_image L img, att_quality = next_quality q\<rparr> # log'"
      using step.prems continue by (cases ?rec) (simp add: export_loop_next)
    from step.IH[OF continue l'] l show ?thesis by auto
  qed (use step.prems in \<open>auto simp: export_loop_unfold\<close>)
qed

lemma export_loop_butlast:
  "att \<in> set (butlast (snd (export_loop L tb m img q it cs d))) \<Longrightarrow>
     \<exists>b. save_JPEG L (att_image att) (att_quality att) = Inr b \<and> int (length b) > tb"
proof (induction L tb m img q it cs d rule: export_loop_induct)
  case (step L tb m img q it cs d)
  show ?case
  proof (cases rule: export_loop_cases[where cs=cs and tb=tb and it=it and m=m and L=L and img=img and q=q])
    case (continue out)
    let ?rec = "export_loop L tb m (next_image L img) (next_quality q) (it + 1) (int (length out)) out"
    show ?thesis
    proof (cases "snd ?rec = []")
      case True
      with step.prems continue show ?thesis by (simp add: export_loop_next)
    next
      case False
      then have "int (length out) > tb"
        by - (rule ccontr, simp add: export_loop_done)
      with step.prems continue False step.IH[of out] show ?thesis
        by (auto simp: export_loop_next)
    qed
  qed (use step.prems in \<open>auto simp: export_loop_unfold\<close>)
qed

lemma export_loop_reaches:
  assumes "save_JPEG L ((next_image L ^^ Suc k) img) ((next_quality ^^ Suc k) q) = Inr b"
    and "int (length b) \<le> tb" and "it + int k < m"
    and "\<forall>j<k. \<exists>c. save_JPEG L ((next_image L ^^ Suc j) img) ((next_quality ^^ Suc j) q) = Inr c"
  shows "\<exists>r. fst (export_loop L tb m img q it cs d) = Returned r \<and> metBudget r"
  using assms
proof (induction L tb m img q it cs d arbitrary: k rule: export_loop_induct)
  case (step L tb m img q it cs d)
  show ?case
  proof (cases rule: export_loop_cases[where cs=cs and tb=tb and it=it and m=m and L=L and img=img and q=q])
    case exit
    with step.prems show ?thesis by (auto simp: export_loop_done)
  next
    case (fail e)
    with step.prems show ?thesis by (cases k) auto
  next
    case (continue out)
    show ?thesis
    proof (cases k)
      case 0
      with step.prems continue have "int (length out) \<le> tb" by simp
      with continue show ?thesis by (simp add: export_loop_next export_loop_done)
    next
      case (Suc k')
      have "\<exists>r. fst (export_loop L tb m (next_image L img) (next_quality q) (it + 1)
                  (int (length out)) out) = Returned r \<and> metBudget r"
      proof (rule step.IH[OF continue, of k'])
        show "save_JPEG L ((next_image L ^^ Suc k') (next_image L img))
                ((next_quality ^^ Suc k') (next_quality q)) = Inr b"
          using step.prems(1) Suc by (simp add: funpow_swap1)
        show "int (length b) \<le> tb" by fact
        show "it + 1 + int k' < m" using step.prems(3) Suc by simp
        show "\<forall>j<k'. \<exists>c. save_JPEG L ((next_image L ^^ Suc j) (next_image L img))
                 ((next_quality ^^ Suc j) (next_quality q)) = Inr c"
        proof (intro allI impI)
          fix j assume "j < k'"
          then have "Suc j < k" using Suc by simp
          with step.prems(4) obtain c where
            "save_JPEG L ((next_image L ^^ Suc (Suc j)) img) ((next_quality ^^ Suc (Suc j)) q) = Inr c"
            by blast
          then show "\<exists>c. save_JPEG L ((next_image L ^^ Suc j) (next_image L img))
                 ((next_quality ^^ Suc j) (next_quality q)) = Inr c"
            by (simp add: funpow_swap1)
        qed
      qed
      with continue show ?thesis by (simp add: export_loop_next)
    qed
  qed
qed

declare module_c_loop.simps [simp del]

lemma module_c_loop_exit:
  "\<not> (sz > 512000 \<and> q \<ge> 65) \<Longrightarrow>
   module_c_loop L p img q it sz fs = \<lparr>returned = Some p, disk = fs, saves = []\<rparr>"
  by (subst module_c_loop.simps) (auto simp: MAX_FILE_SIZE_KB_def QUALITY_MIN_def)

lemma module_c_loop_fail:
  "sz > 512000 \<Longrightarrow> q \<ge> 65 \<Longrightarrow> save_JPEG L img (q - 5) = Inl e \<Longrightarrow>
   module_c_loop L p img q it sz fs =
     \<lparr>returned = None, disk = fs, saves = [\<lparr>att_image = img, att_quality = q - 5\<rparr>]\<rparr>"
  by (subst module_c_loop.simps)
     (simp add: MAX_FILE_SIZE_KB_def QUALITY_MIN_def QUALITY_STEP_def)

lemma module_c_loop_break:
  "sz > 512000 \<Longrightarrow> q \<ge> 65 \<Longrightarrow> save_JPEG L img (q - 5) = Inr data \<Longrightarrow> it + 1 \<ge> 20 \<Longrightarrow>
   module_c_loop L p img q it sz fs =
     \<lparr>returned = Some p, disk = fs(p \<mapsto> data),
      saves = [\<lparr>att_image = img, att_quality = q - 5\<rparr>]\<rparr>"
  by (subst module_c_loop.simps)
     (simp add: MAX_FILE_SIZE_KB_def QUALITY_MIN_def QUALITY_STEP_def)

lemma module_c_loop_next:
  "sz > 512000 \<Longrightarrow> q \<ge> 65 \<Longrightarrow> save_JPEG L img (q - 5) = Inr data \<Longrightarrow> \<not> it + 1 \<ge> 20 \<Longrightarrow>
   module_c_loop L p img q it sz fs =
     (module_c_loop L p img (q - 5) (it + 1) (int (length data)) (fs(p \<mapsto> data)))
       \<lparr>saves := \<lparr>att_image = img, att_quality = q - 5\<rparr> #
          saves (module_c_loop L p img (q - 5) (it + 1) (int (length data)) (fs(p \<mapsto> data)))\<rparr>"
  by (subst module_c_loop.simps)
     (simp add: MAX_FILE_SIZE_KB_def QUALITY_MIN_def QUALITY_STEP_def Let_def)

lemmas module_c_loop_unfold =
  module_c_loop_exit module_c_loop_fail module_c_loop_break module_c_loop_next

lemma module_c_loop_cases [case_names exit fail break continue]:
  assumes "\<not> ((sz::int) > 512000 \<and> (q::int) \<ge> 65) \<Longrightarrow> P"
    and "\<And>e. sz > 512000 \<Longrightarrow> q \<ge> 65 \<Longrightarrow> save_JPEG L img (q - 5) = Inl e \<Longrightarrow> P"
    and "\<And>data. sz > 512000 \<Longrightarrow> q \<ge> 65 \<Longrightarrow> save_JPEG L img (q - 5) = Inr data \<Longrightarrow>
           (it::int) + 1 \<ge> 20 \<Longrightarrow> P"
    and "\<And>data. sz > 512000 \<Longrightarrow> q \<ge> 65 \<Longrightarrow> save_JPEG L img (q - 5) = Inr data \<Longrightarrow>
           \<not> it + 1 \<ge> 20 \<Longrightarrow> P"
  shows P
  using assms by (cases "save_JPEG L img (q - 5)") blast+

lemma module_c_loop_induct [case_names step]:
  assumes "\<And>(L::pil) (p::string) img (q::int) (it::int) (sz::int) (fs::files).
     (\<And>data. sz > 512000 \<Longrightarrow> q \<ge> 65 \<Longrightarrow> save_JPEG L img (q - 5) = Inr data \<Longrightarrow>
        \<not> it + 1 \<ge> 20 \<Longrightarrow>
        P L p img (q - 5) (it + 1) (int (length data)) (fs(p \<mapsto> data))) \<Longrightarrow>
     P L p img q it sz fs"
  shows "P L p img q it sz fs"
proof (induction L p img q it sz fs rule: module_c_loop.induct)
  case (1 L p img q it sz fs)
  show ?case
  proof (rule assms)
    fix data
    assume "sz > 512000" "q \<ge> 65" "save_JPEG L img (q - 5) = Inr data" "\<not> it + 1 \<ge> 20"
    then show "P L p img (q - 5) (it + 1) (int (length data)) (fs(p \<mapsto> data))"
      using "1.IH"[of data]
      by (simp add: MAX_FILE_SIZE_KB_def QUALITY_MIN_def QUALITY_STEP_def del: fun_upd_apply)
  qed
qed

lemma module_c_loop_length_cap:
  "length (saves (module_c_loop L p img q it sz fs)) \<le> nat (max 1 (20 - it))"
proof (induction L p img q it sz fs rule: module_c_loop_induct)
  case (step L p img q it sz fs)
  show ?case
  proof (cases rule: module_c_loop_cases[where sz=sz and q=q and L=L and img=img and it=it])
    case (continue data)
    from step[OF continue] continue(4) show ?thesis
      using continue by (simp add: module_c_loop_next del: fun_upd_apply)
  qed (auto simp: module_c_loop_unfold)
qed

lemma module_c_loop_length_quality:
  "int (length (saves (module_c_loop L p img q it sz fs))) \<le> max 0 ((q - 60) div 5)"
proof (induction L p img q it sz fs rule: module_c_loop_induct)
  case (step L p img q it sz fs)
  show ?case
  proof (cases rule: module_c_loop_cases[where sz=sz and q=q and L=L and img=img and it=it])
    case (continue data)
    have "(q - 60) div 5 = (q - 5 - 60) div 5 + 1" by simp
    with step[OF continue] continue(2) show ?thesis
      using continue by (simp add: module_c_loop_next del: fun_upd_apply)
  qed (auto simp: module_c_loop_unfold)
qed

lemma module_c_loop_attempts:
  "k < length (saves (module_c_loop L p img q it sz fs)) \<Longrightarrow>
   saves (module_c_loop L p img q it sz fs) ! k =
     \<lparr>att_image = img, att_quality = q - 5 * (int k + 1)\<rparr>"
proof (induction L p img q it sz fs arbitrary: k rule: module_c_loop_induct)
  case (step L p img q it sz fs)
  show ?case
  proof (cases rule: module_c_loop_cases[where sz=sz and q=q and L=L and img=img and it=it])
    case (continue data)
    with step.prems step.IH[OF continue] show ?thesis
      by (cases k) (auto simp: module_c_loop_next simp del: fun_upd_apply)
  qed (use step.prems in \<open>auto simp: module_c_loop_unfold\<close>)
qed

lemma module_c_loop_frame:
  "p' \<noteq> p \<Longrightarrow> disk (module_c_loop L p img q it sz fs) p' = fs p'"
proof (induction L p img q it sz fs rule: module_c_loop_induct)
  case (step L p img q it sz fs)
  show ?case
  proof (cases rule: module_c_loop_cases[where sz=sz and q=q and L=L and img=img and it=it])
    case (continue data)
    have "(fs(p \<mapsto> data)) p' = fs p'" using step.prems by simp
    with step.IH[OF continue step.prems] continue show ?thesis
      by (simp add: module_c_loop_next del: fun_upd_apply)
  qed (use step.prems in \<open>auto simp: module_c_loop_unfold\<close>)
qed

lemma module_c_loop_returned:
  "returned (module_c_loop L p img q it sz fs) = Some p' \<Longrightarrow> p' = p"
proof (induction L p img q it sz fs rule: module_c_loop_induct)
  case (step L p img q it sz fs)
  show ?case
  proof (cases rule: module_c_loop_cases[where sz=sz and q=q and L=L and img=img and it=it])
    case (continue data)
    from step.IH[OF continue] continue step.prems show ?thesis
      by (simp add: module_c_loop_next del: fun_upd_apply)
  qed (use step.prems in \<open>auto simp: module_c_loop_unfold\<close>)
qed

lemma module_c_loop_written:
  assumes "returned (module_c_loop L p img q it sz fs) \<noteq> None"
    and "saves (module_c_loop L p img q it sz fs) \<noteq> []"
  shows "save_JPEG L img (att_quality (last (saves (module_c_loop L p img q it sz fs)))) =
           Inr (the (disk (module_c_loop L p img q it sz fs) p)) \<and>
         disk (module_c_loop L p img q it sz fs) p \<noteq> None"
  using assms
proof (induction L p img q it sz fs rule: module_c_loop_induct)
  case (step L p img q it sz fs)
  show ?case
  proof (cases rule: module_c_loop_cases[where sz=sz and q=q and L=L and img=img and it=it])
    case (continue data)
    let ?rec = "module_c_loop L p img (q - 5) (it + 1) (int (length data)) (fs(p \<mapsto> data))"
    show ?thesis
    proof (cases "saves ?rec = []")
      case True
      then have "\<not> (int (length data) > 512000 \<and> q - 5 \<ge> 65)"
        by - (rule ccontr, cases rule: module_c_loop_cases[where sz="int (length data)" and q="q - 5" and L=L and img=img and it="it+1"], auto simp: module_c_loop_unfold)
      with continue show ?thesis by (simp add: module_c_loop_next module_c_loop_exit)
    next
      case False
      with step.IH[OF continue] step.prems continue show ?thesis
        by (simp add: module_c_loop_next del: fun_upd_apply)
    qed
  qed (use step.prems in \<open>auto simp: module_c_loop_unfold\<close>)
qed

lemma module_c_loop_none:
  assumes "returned (module_c_loop L p img q it sz fs) = None"
  shows "saves (module_c_loop L p img q it sz fs) \<noteq> [] \<and>
         (\<exists>e. save_JPEG L img (att_quality (last (saves (module_c_loop L p img q it sz fs)))) = Inl e)"
  using assms
proof (induction L p img q it sz fs rule: module_c_loop_induct)
  case (step L p img q it sz fs)
  show ?case
  proof (cases rule: module_c_loop_cases[where sz=sz and q=q and L=L and img=img and it=it])
    case (continue data)
    with step.IH[OF continue] step.prems show ?thesis
      by (simp add: module_c_loop_next del: fun_upd_apply)
  qed (use step.prems in \<open>auto simp: module_c_loop_unfold\<close>)
qed

lemma module_c_loop_butlast:
  "att \<in> set (butlast (saves (module_c_loop L p img q it sz fs))) \<Longrightarrow>
     \<exists>b. save_JPEG L img (att_quality att) = Inr b \<and> int (length b) > 512000"
proof (induction L p img q it sz fs rule: module_c_loop_induct)
  case (step L p img q it sz fs)
  show ?case
  proof (cases rule: module_c_loop_cases[where sz=sz and q=q and L=L and img=img and it=it])
    case (continue data)
    let ?rec = "module_c_loop L p img (q - 5) (it + 1) (int (length data)) (fs(p \<mapsto> data))"
    show ?thesis
    proof (cases "saves ?rec = []")
      case True
      with step.prems continue show ?thesis by (simp add: module_c_loop_next del: fun_upd_apply)
    next
      case False
      then have "int (length data) > 512000"
        by - (rule ccontr, simp add: module_c_loop_exit)
      with step.prems continue False step.IH[OF continue] show ?thesis
        by (auto simp: module_c_loop_next simp del: fun_upd_apply)
    qed
  qed (use step.prems in \<open>auto simp: module_c_loop_unfold\<close>)
qed

lemma module_c_loop_miss:
  assumes "\<forall>q'. \<exists>b. save_JPEG L img q' = Inr b \<and> int (length b) > 512000"
    and "sz > 512000" and "it + (q - 60) div 5 \<le> 20" and "0 \<le> it"
  shows "int (length (saves (module_c_loop L p img q it sz fs))) = max 0 ((q - 60) div 5) \<and>
         returned (module_c_loop L p img q it sz fs) = Some p"
  using assms
proof (induction L p img q it sz fs rule: module_c_loop_induct)
  case (step L p img q it sz fs)
  show ?case
  proof (cases rule: module_c_loop_cases[where sz=sz and q=q and L=L and img=img and it=it])
    case exit
    with step.prems show ?thesis by (simp add: module_c_loop_exit)
  next
    case (fail e)
    with step.prems(1) show ?thesis by (metis sum.distinct(1))
  next
    case (break data)
    with step.prems have "(q - 60) div 5 = 1" by linarith
    with break show ?thesis by (simp add: module_c_loop_break)
  next
    case (continue data)
    with step.prems(1) have big: "int (length data) > 512000" by (metis sum.inject(2))
    have "it + 1 + (q - 5 - 60) div 5 \<le> 20" using step.prems(3) by linarith
    moreover have "0 \<le> it + 1" using step.prems(4) by simp
    moreover have "(q - 60) div 5 = (q - 5 - 60) div 5 + 1" by simp
    moreover have "0 \<le> (q - 5 - 60) div 5" using continue(2) by simp
    ultimately show ?thesis
      using step.IH[OF continue step.prems(1) big] continue by (simp add: module_c_loop_next del: fun_upd_apply)
  qed
qed

section \<open>The three entry points in terms of their loops\<close>

lemma optimize_for_retail_snd:
  "snd (optimize_for_retail L im) = snd (retail_loop L (retail_to_rgb L im) 95 0)"
  by (simp add: optimize_for_retail_def split: prod.splits outcome.splits)

lemma optimize_for_retail_fst:
  "fst (optimize_for_retail L im) =
     (case fst (retail_loop L (retail_to_rgb L im) 95 0) of
        Raised e \<Rightarrow> Raised (''Error in optimize_for_retail: '' @ e)
      | Returned r \<Rightarrow> Returned r)"
  by (simp add: optimize_for_retail_def split: prod.splits outcome.splits)

lemma optimize_export_snd:
  "Image_open L d = Inr img \<Longrightarrow>
   snd (optimize_export L d t m) =
     snd (export_loop L (t * 1024) m (export_to_rgb L img) 85 0 (int (length d)) d)"
  by (simp add: optimize_export_def split: prod.splits outcome.splits)

lemma optimize_export_fst:
  "Image_open L d = Inr img \<Longrightarrow>
   fst (optimize_export L d t m) =
     (case fst (export_loop L (t * 1024) m (export_to_rgb L img) 85 0 (int (length d)) d) of
        Raised e \<Rightarrow> Raised (''Error optimizing export: '' @ e)
      | Returned r \<Rightarrow> Returned r)"
  by (simp add: optimize_export_def split: prod.splits outcome.splits)

lemma optimize_export_undecoded:
  "Image_open L d = Inl e \<Longrightarrow>
   optimize_export L d t m = (Raised (''Error optimizing export: '' @ e), [])"
  by (simp add: optimize_export_def)

lemma optimize_export_length:
  "int (length (snd (optimize_export L d t m))) \<le> max 0 m"
proof (cases "Image_open L d")
  case (Inl e)
  then show ?thesis by (simp add: optimize_export_undecoded)
next
  case (Inr img)
  have "length (snd (export_loop L (t * 1024) m (export_to_rgb L img) 85 0 (int (length d)) d))
          \<le> nat (m - 0)"
    by (rule export_loop_length)
  with Inr show ?thesis by (simp add: optimize_export_snd)
qed

lemma recursive_optimize_export_length:
  "length (saves (recursive_optimize_export L p fs)) \<le> 20"
proof -
  have "length (saves (module_c_loop L p img 95 0 sz fs)) \<le> 20" for img sz
    using module_c_loop_length_cap[of L p img 95 0 sz fs] by simp
  then show ?thesis
    by (simp add: recursive_optimize_export_def QUALITY_START_def split: option.splits sum.splits)
qed

section \<open>The sample runs\<close>

lemma heavy_retail_run:
  "optimize_for_retail (sample_pil (sample_image ''RGB'') heavy_encoder) (sample_image ''RGB'') =
     (Returned \<lparr>out_bytes = blob 600000, out_quality = 5, out_iteration = 18,
        out_image = sample_image ''RGB'', metBudget = False\<rparr>,
      map (\<lambda>q. \<lparr>att_image = sample_image ''RGB'', att_quality = q\<rparr>)
        [95, 90, 85, 80, 75, 70, 65, 60, 55, 50, 45, 40, 35, 30, 25, 20, 15, 10])"
  by (simp add: optimize_for_retail_def retail_to_rgb_def sample_pil_def sample_image_def
        heavy_encoder_def retail_loop.simps)

lemma linear_retail_run:
  "optimize_for_retail (sample_pil (sample_image ''RGB'') linear_encoder) (sample_image ''RGB'') =
     (Returned \<lparr>out_bytes = blob 510000, out_quality = 85, out_iteration = 3,
        out_image = sample_image ''RGB'', metBudget = True\<rparr>,
      map (\<lambda>q. \<lparr>att_image = sample_image ''RGB'', att_quality = q\<rparr>) [95, 90, 85])"
  by (simp add: optimize_for_retail_def retail_to_rgb_def sample_pil_def sample_image_def
        linear_encoder_def retail_loop.simps)

lemma export_loop_step:
  "export_loop L tb m img q it cs d =
     (if cs > tb \<and> it < m then
        (case save_JPEG L (next_image L img) (next_quality q) of
           Inl e \<Rightarrow> (Raised e, [\<lparr>att_image = next_image L img, att_quality = next_quality q\<rparr>])
         | Inr out \<Rightarrow>
             (case export_loop L tb m (next_image L img) (next_quality q) (it + 1)
                     (int (length out)) out of
                (r, log) \<Rightarrow>
                  (r, \<lparr>att_image = next_image L img, att_quality = next_quality q\<rparr> # log)))
      else (Returned \<lparr>out_bytes = d, out_quality = q, out_iteration = it, out_image = img,
              metBudget = (\<not> cs > tb)\<rparr>, []))"
  by (cases "cs > tb \<and> it < m"; cases "save_JPEG L (next_image L img) (next_quality q)")
     (simp_all add: export_loop_done export_loop_fail export_loop_next case_prod_beta)

lemma next_image_literal:
  "next_image L \<lparr>mode = m, width = w, height = h, pixels = p\<rparr> =
     \<lparr>mode = m, width = max 100 (scale95 w), height = max 100 (scale95 h),
      pixels = resize_pixels L \<lparr>mode = m, width = w, height = h, pixels = p\<rparr>
                 (max 100 (scale95 w)) (max 100 (scale95 h))\<rparr>"
  by (simp add: next_image_def resize_def)

lemma sample_pil_simps [simp]:
  "save_JPEG (sample_pil decoded enc) = enc"
  "Image_open (sample_pil decoded enc) d = Inr decoded"
  by (simp_all add: sample_pil_def)

lemma boundary_export_run:
  "optimize_export (sample_pil (sample_image ''RGB'') boundary_encoder) (blob 2000) 1 10 =
     (Returned \<lparr>out_bytes = blob 1024, out_quality = 80, out_iteration = 1,
        out_image = \<lparr>mode = ''RGB'', width = 114, height = 114, pixels = []\<rparr>,
        metBudget = True\<rparr>,
      [\<lparr>att_image = \<lparr>mode = ''RGB'', width = 114, height = 114, pixels = []\<rparr>,
        att_quality = 80\<rparr>])"
  by (simp add: optimize_export_def export_to_rgb_def sample_pil_def sample_image_def
        boundary_encoder_def export_loop_step next_image_literal next_quality_def scale95_def)

lemma optimize_for_retail_returned:
  assumes "fst (optimize_for_retail L im) = Returned r"
  shows "retail_loop L (retail_to_rgb L im) 95 0 = (Returned r, snd (optimize_for_retail L im))"
  using assms
  by (cases "fst (retail_loop L (retail_to_rgb L im) 95 0)")
     (simp_all add: optimize_for_retail_fst optimize_for_retail_snd prod_eq_iff)

lemma optimize_for_retail_raised:
  assumes "fst (optimize_for_retail L im) = Raised e"
  shows "\<exists>e'. e = ''Error in optimize_for_retail: '' @ e' \<and>
           retail_loop L (retail_to_rgb L im) 95 0 = (Raised e', snd (optimize_for_retail L im))"
  using assms
  by (cases "fst (retail_loop L (retail_to_rgb L im) 95 0)")
     (simp_all add: optimize_for_retail_fst optimize_for_retail_snd prod_eq_iff)

lemma optimize_export_returned:
  assumes "Image_open L d = Inr img" and "fst (optimize_export L d t m) = Returned r"
  shows "export_loop L (t * 1024) m (export_to_rgb L img) 85 0 (int (length d)) d =
           (Returned r, snd (optimize_export L d t m))"
  using assms
  by (cases "fst (export_loop L (t * 1024) m (export_to_rgb L img) 85 0 (int (length d)) d)")
     (simp_all add: optimize_export_fst optimize_export_snd prod_eq_iff)

lemma optimize_export_raised:
  assumes "Image_open L d = Inr img" and "fst (optimize_export L d t m) = Raised e"
  shows "\<exists>e'. e = ''Error optimizing export: '' @ e' \<and>
           export_loop L (t * 1024) m (export_to_rgb L img) 85 0 (int (length d)) d =
             (Raised e', snd (optimize_export L d t m))"
  using assms
  by (cases "fst (export_loop L (t * 1024) m (export_to_rgb L img) 85 0 (int (length d)) d)")
     (simp_all add: optimize_export_fst optimize_export_snd prod_eq_iff)

lemma retail_earlier_over:
  assumes "att \<in> set (butlast (snd (optimize_for_retail L im)))"
  shows "\<exists>b. save_JPEG L (retail_to_rgb L im) (att_quality att) = Inr b \<and>
             \<not> int (length b) < 500 * 1024"
  using assms retail_loop_butlast[of att L "retail_to_rgb L im" 95 0]
  by (simp add: optimize_for_retail_snd)

lemma retail_result:
  assumes "fst (optimize_for_retail L im) = Returned r"
  shows "save_JPEG L (retail_to_rgb L im)
           (att_quality (last (snd (optimize_for_retail L im)))) = Inr (out_bytes r) \<and>
         metBudget r = (int (length (out_bytes r)) < 500 * 1024) \<and>
         (metBudget r \<longrightarrow> out_quality r = att_quality (last (snd (optimize_for_retail L im))))"
  using retail_loop_returned[OF optimize_for_retail_returned[OF assms]] by simp

lemma export_earlier_over:
  assumes "Image_open L d = Inr img" and "att \<in> set (butlast (snd (optimize_export L d t m)))"
  shows "\<exists>b. save_JPEG L (att_image att) (att_quality att) = Inr b \<and> t * 1024 < int (length b)"
  using assms
    export_loop_butlast[of att L "t * 1024" m "export_to_rgb L img" 85 0 "int (length d)" d]
  by (simp add: optimize_export_snd)

lemma export_result:
  assumes "Image_open L d = Inr img" and "fst (optimize_export L d t m) = Returned r"
  shows "metBudget r = (int (length (out_bytes r)) \<le> t * 1024) \<and>
         (snd (optimize_export L d t m) \<noteq> [] \<longrightarrow>
            save_JPEG L (att_image (last (snd (optimize_export L d t m))))
              (att_quality (last (snd (optimize_export L d t m)))) = Inr (out_bytes r) \<and>
            out_quality r = att_quality (last (snd (optimize_export L d t m))) \<and>
            out_image r = att_image (last (snd (optimize_export L d t m))))"
  using export_loop_returned[OF optimize_export_returned[OF assms] refl] by simp

lemma next_quality_funpow: "10 \<le> q \<Longrightarrow> (next_quality ^^ n) q = max 10 (q - 5 * int n)"
  by (induction n) (auto simp: next_quality_def)

lemma mode_next_image_funpow: "mode ((next_image L ^^ n) img) = mode img"
  by (induction n) (simp_all add: next_image_def resize_def)

lemma export_to_rgb_size [simp]:
  "width (export_to_rgb L img) = width img" "height (export_to_rgb L img) = height img"
  by (simp_all add: export_to_rgb_def flatten_white_def convert_RGB_def)

lemma export_attempt:
  assumes "Image_open L d = Inr img" and "k < length (snd (optimize_export L d t m))"
  shows "snd (optimize_export L d t m) ! k =
           \<lparr>att_image = (next_image L ^^ Suc k) (export_to_rgb L img),
            att_quality = max 10 (85 - 5 * (int k + 1))\<rparr>"
proof -
  have "snd (optimize_export L d t m) ! k =
          \<lparr>att_image = (next_image L ^^ Suc k) (export_to_rgb L img),
           att_quality = (next_quality ^^ Suc k) 85\<rparr>"
    using assms export_loop_attempts[of k L "t * 1024" m "export_to_rgb L img" 85 0 "int (length d)" d]
    by (simp add: optimize_export_snd)
  moreover have "(next_quality ^^ Suc k) 85 = max 10 (85 - 5 * (int k + 1))"
    using next_quality_funpow[of 85 "Suc k"] by (simp add: algebra_simps)
  ultimately show ?thesis by simp
qed

lemma retail_loop_miss:
  assumes "\<forall>k. 10 \<le> q - 5 * int k \<longrightarrow>
             (\<exists>b. save_JPEG L im (q - 5 * int k) = Inr b \<and> \<not> int (length b) < 500 * 1024)"
    and "10 \<le> q" and "q + 5 * it \<le> 95"
  shows "\<exists>r. fst (retail_loop L im q it) = Returned r \<and> \<not> metBudget r"
  using assms
proof (induction L im q it rule: retail_loop.induct)
  case (1 L im q it)
  from "1.prems"(1)[rule_format, of 0] "1.prems"(2)
  obtain b0 where b0: "save_JPEG L im q = Inr b0" "\<not> int (length b0) < 500 * 1024" by auto
  show ?case
  proof (cases rule: retail_loop_cases[where it=it and L=L and im=im and q=q])
    case stop
    with "1.prems" show ?thesis by simp
  next
    case (fail e)
    with b0 show ?thesis by simp
  next
    case (met b)
    with b0 show ?thesis by simp
  next
    case (floor b)
    then show ?thesis by (simp add: retail_loop_floor)
  next
    case (continue b)
    have "\<exists>r. fst (retail_loop L im (q - 5) (it + 1)) = Returned r \<and> \<not> metBudget r"
    proof (rule "1.IH"[OF continue(1,2)])
      show "\<not> int (length b) < 500 * 1024" using continue by simp
      show "\<not> q - 5 < 10" using continue by simp
      show "\<forall>k. 10 \<le> q - 5 - 5 * int k \<longrightarrow>
             (\<exists>b. save_JPEG L im (q - 5 - 5 * int k) = Inr b \<and> \<not> int (length b) < 500 * 1024)"
      proof (intro allI impI)
        fix k assume "10 \<le> q - 5 - 5 * int k"
        then have "10 \<le> q - 5 * int (Suc k)" by simp
        from "1.prems"(1)[rule_format, OF this]
        show "\<exists>b. save_JPEG L im (q - 5 - 5 * int k) = Inr b \<and> \<not> int (length b) < 500 * 1024"
          by (simp add: algebra_simps)
      qed
      show "10 \<le> q - 5" using continue by simp
      show "q - 5 + 5 * (it + 1) \<le> 95" using "1.prems"(3) by simp
    qed
    with continue show ?thesis by (simp add: retail_loop_next)
  qed
qed

lemma export_loop_miss_range:
  assumes "\<forall>k. it + int k < m \<longrightarrow>
             (\<exists>b. save_JPEG L ((next_image L ^^ Suc k) img) ((next_quality ^^ Suc k) q) = Inr b \<and>
                  tb < int (length b))"
    and "cs > tb"
  shows "\<exists>r. fst (export_loop L tb m img q it cs d) = Returned r \<and> \<not> metBudget r \<and>
             length (snd (export_loop L tb m img q it cs d)) = nat (m - it)"
  using assms
proof (induction L tb m img q it cs d rule: export_loop_induct)
  case (step L tb m img q it cs d)
  show ?case
  proof (cases rule: export_loop_cases[where cs=cs and tb=tb and it=it and m=m and L=L and img=img and q=q])
    case exit
    with step.prems show ?thesis by (auto simp: export_loop_done)
  next
    case (fail e)
    with step.prems(1)[rule_format, of 0] show ?thesis by simp
  next
    case (continue out)
    with step.prems(1)[rule_format, of 0] have big: "tb < int (length out)" by simp
    have "\<exists>r. fst (export_loop L tb m (next_image L img) (next_quality q) (it + 1)
                 (int (length out)) out) = Returned r \<and> \<not> metBudget r \<and>
             length (snd (export_loop L tb m (next_image L img) (next_quality q) (it + 1)
                 (int (length out)) out)) = nat (m - (it + 1))"
    proof (rule step.IH[OF continue _ big])
      show "\<forall>k. it + 1 + int k < m \<longrightarrow>
             (\<exists>b. save_JPEG L ((next_image L ^^ Suc k) (next_image L img))
                    ((next_quality ^^ Suc k) (next_quality q)) = Inr b \<and> tb < int (length b))"
      proof (intro allI impI)
        fix k assume "it + 1 + int k < m"
        then have "it + int (Suc k) < m" by simp
        from step.prems(1)[rule_format, OF this]
        show "\<exists>b. save_JPEG L ((next_image L ^^ Suc k) (next_image L img))
                    ((next_quality ^^ Suc k) (next_quality q)) = Inr b \<and> tb < int (length b)"
          by (simp add: funpow_swap1)
      qed
    qed
    with continue show ?thesis by (auto simp: export_loop_next nat_diff_distrib)
  qed
qed

lemma export_loop_recurrence:
  "Suc k < length (snd (export_loop L tb m img q it cs d)) \<Longrightarrow>
   att_image (snd (export_loop L tb m img q it cs d) ! Suc k) =
     next_image L (att_image (snd (export_loop L tb m img q it cs d) ! k)) \<and>
   att_quality (snd (export_loop L tb m img q it cs d) ! Suc k) =
     next_quality (att_quality (snd (export_loop L tb m img q it cs d) ! k))"
  using export_loop_attempts[of "Suc k" L tb m img q it cs d]
        export_loop_attempts[of k L tb m img q it cs d]
  by simp

lemma exact_export_run:
  "optimize_export (sample_pil (sample_image ''RGB'') exact_encoder) (blob 2000) 1 10 =
     (Returned \<lparr>out_bytes = blob 1024, out_quality = 80, out_iteration = 1,
        out_image = \<lparr>mode = ''RGB'', width = 114, height = 114, pixels = []\<rparr>,
        metBudget = True\<rparr>,
      [\<lparr>att_image = \<lparr>mode = ''RGB'', width = 114, height = 114, pixels = []\<rparr>,
        att_quality = 80\<rparr>])"
  by (simp add: optimize_export_def export_to_rgb_def sample_pil_def sample_image_def
        exact_encoder_def export_loop_step next_image_literal next_quality_def scale95_def)

lemma retail_floor_calls:
  assumes "fst (optimize_for_retail L im) = Returned r" and "\<not> metBudget r"
  shows "length (snd (optimize_for_retail L im)) = 18 \<and>
         att_quality (last (snd (optimize_for_retail L im))) = 10"
proof -
  let ?im = "retail_to_rgb L im"
  let ?log = "snd (retail_loop L ?im 95 0)"
  have log: "snd (optimize_for_retail L im) = ?log" by (rule optimize_for_retail_snd)
  have len: "length ?log \<le> 18"
    using retail_loop_length_quality[of 95 L ?im 0] by simp
  have ne: "?log \<noteq> []" by (rule retail_loop_nonempty) simp
  have lastq: "att_quality (last ?log) = 95 - 5 * int (length ?log - 1)"
    using ne by (simp add: last_conv_nth retail_loop_qualities)
  from retail_loop_returned[OF optimize_for_retail_returned[OF assms(1)]] assms(2)
  have "att_quality (last ?log) - 5 < 10" by (simp add: log)
  with lastq len ne have "length ?log = 18 \<and> att_quality (last ?log) = 10"
    by (cases ?log) auto
  then show ?thesis by (simp add: log)
qed

lemma retail_miss:
  assumes "\<forall>k<18. \<exists>b. save_JPEG L (retail_to_rgb L im) (95 - 5 * int k) = Inr b \<and>
                    \<not> int (length b) < 500 * 1024"
  shows "\<exists>r. fst (optimize_for_retail L im) = Returned r \<and> \<not> metBudget r \<and>
             length (snd (optimize_for_retail L im)) = 18 \<and>
             save_JPEG L (retail_to_rgb L im) 10 = Inr (out_bytes r)"
proof -
  let ?im = "retail_to_rgb L im"
  have "\<forall>k. 10 \<le> 95 - 5 * int k \<longrightarrow>
          (\<exists>b. save_JPEG L ?im (95 - 5 * int k) = Inr b \<and> \<not> int (length b) < 500 * 1024)"
  proof (intro allI impI)
    fix k :: nat assume "10 \<le> 95 - 5 * int k"
    then have "k < 18" by simp
    with assms show "\<exists>b. save_JPEG L ?im (95 - 5 * int k) = Inr b \<and> \<not> int (length b) < 500 * 1024"
      by blast
  qed
  from retail_loop_miss[OF this] obtain r where
    r: "fst (retail_loop L ?im 95 0) = Returned r" "\<not> metBudget r" by auto
  then have ret: "fst (optimize_for_retail L im) = Returned r"
    by (simp add: optimize_for_retail_fst)
  from retail_floor_calls[OF ret r(2)] retail_result[OF ret] ret r(2) show ?thesis by auto
qed

lemma retail_raise_is_codec:
  assumes "fst (optimize_for_retail L im) = Raised e"
  shows "\<exists>e'. e = ''Error in optimize_for_retail: '' @ e' \<and>
           snd (optimize_for_retail L im) \<noteq> [] \<and>
           save_JPEG L (retail_to_rgb L im)
             (att_quality (last (snd (optimize_for_retail L im)))) = Inl e'"
proof -
  from optimize_for_retail_raised[OF assms] obtain e' where
    e: "e = ''Error in optimize_for_retail: '' @ e'"
    and run: "retail_loop L (retail_to_rgb L im) 95 0 = (Raised e', snd (optimize_for_retail L im))"
    by blast
  from retail_loop_raised[OF run] e show ?thesis by simp
qed

lemma export_raise_is_codec:
  assumes "Image_open L d = Inr img" and "fst (optimize_export L d t m) = Raised e"
  shows "\<exists>e'. e = ''Error optimizing export: '' @ e' \<and>
           snd (optimize_export L d t m) \<noteq> [] \<and>
           save_JPEG L (att_image (last (snd (optimize_export L d t m))))
             (att_quality (last (snd (optimize_export L d t m)))) = Inl e'"
proof -
  from optimize_export_raised[OF assms] obtain e' where
    e: "e = ''Error optimizing export: '' @ e'"
    and run: "export_loop L (t * 1024) m (export_to_rgb L img) 85 0 (int (length d)) d =
                (Raised e', snd (optimize_export L d t m))"
    by blast
  from export_loop_raised[OF run] e show ?thesis by simp
qed

lemma export_miss_range:
  assumes "Image_open L d = Inr img" and "t * 1024 < int (length d)" and "0 < m"
    and "\<forall>k. int k < m \<longrightarrow>
           (\<exists>b. save_JPEG L ((next_image L ^^ Suc k) (export_to_rgb L img))
                  (max 10 (85 - 5 * (int k + 1))) = Inr b \<and> t * 1024 < int (length b))"
  shows "\<exists>r. fst (optimize_export L d t m) = Returned r \<and> \<not> metBudget r \<and>
             length (snd (optimize_export L d t m)) = nat m \<and>
             save_JPEG L (att_image (last (snd (optimize_export L d t m))))
               (att_quality (last (snd (optimize_export L d t m)))) = Inr (out_bytes r)"
proof -
  have "\<forall>k. 0 + int k < m \<longrightarrow>
          (\<exists>b. save_JPEG L ((next_image L ^^ Suc k) (export_to_rgb L img))
                 ((next_quality ^^ Suc k) 85) = Inr b \<and> t * 1024 < int (length b))"
  proof (intro allI impI)
    fix k :: nat assume "0 + int k < m"
    then have "int k < m" by simp
    moreover have "(next_quality ^^ Suc k) 85 = max 10 (85 - 5 * (int k + 1))"
      using next_quality_funpow[of 85 "Suc k"] by (simp add: algebra_simps)
    ultimately show "\<exists>b. save_JPEG L ((next_image L ^^ Suc k) (export_to_rgb L img))
                 ((next_quality ^^ Suc k) 85) = Inr b \<and> t * 1024 < int (length b)"
      using assms(4) by simp
  qed
  from export_loop_miss_range[OF this assms(2), of d] obtain r where
    r: "fst (export_loop L (t * 1024) m (export_to_rgb L img) 85 0 (int (length d)) d) = Returned r"
       "\<not> metBudget r"
    and len: "length (snd (export_loop L (t * 1024) m (export_to_rgb L img) 85 0
                (int (length d)) d)) = nat (m - 0)"
    by blast
  from r(1) assms(1) have ret: "fst (optimize_export L d t m) = Returned r"
    by (simp add: optimize_export_fst)
  from len assms(1) have len': "length (snd (optimize_export L d t m)) = nat m"
    by (simp add: optimize_export_snd)
  with assms(3) have "snd (optimize_export L d t m) \<noteq> []" by auto
  with export_result[OF assms(1) ret] ret r(2) len' show ?thesis by auto
qed

lemma mode_retail_to_rgb [simp]: "mode (retail_to_rgb L im) = ''RGB''"
  by (simp add: retail_to_rgb_def flatten_white_def convert_RGB_def)

lemma linear_export_run:
  "optimize_export (sample_pil (sample_image ''RGB'') linear_encoder) (blob 600000) 440 10 =
     (Returned \<lparr>out_bytes = blob 450000, out_quality = 75, out_iteration = 2,
        out_image = \<lparr>mode = ''RGB'', width = 108, height = 108, pixels = []\<rparr>,
        metBudget = True\<rparr>,
      [\<lparr>att_image = \<lparr>mode = ''RGB'', width = 114, height = 114, pixels = []\<rparr>,
        att_quality = 80\<rparr>,
       \<lparr>att_image = \<lparr>mode = ''RGB'', width = 108, height = 108, pixels = []\<rparr>,
        att_quality = 75\<rparr>])"
  by (simp add: optimize_export_def export_to_rgb_def sample_pil_def sample_image_def
        linear_encoder_def export_loop_step next_image_literal next_quality_def scale95_def)

lemma retail_attempt:
  assumes "k < length (snd (optimize_for_retail L im))"
  shows "snd (optimize_for_retail L im) ! k =
           \<lparr>att_image = retail_to_rgb L im, att_quality = 95 - 5 * int k\<rparr>"
proof -
  let ?log = "snd (retail_loop L (retail_to_rgb L im) 95 0)"
  from assms have k: "k < length ?log" by (simp add: optimize_for_retail_snd)
  then have "?log ! k \<in> set ?log" by simp
  then have "att_image (?log ! k) = retail_to_rgb L im" by (rule retail_loop_images)
  moreover have "att_quality (?log ! k) = 95 - 5 * int k" using k by (rule retail_loop_qualities)
  ultimately show ?thesis by (simp add: optimize_for_retail_snd)
qed

lemma retail_reaches_range:
  assumes "k < 18" and "save_JPEG L (retail_to_rgb L im) (95 - 5 * int k) = Inr b"
    and "int (length b) < 500 * 1024"
    and "\<forall>j<k. \<exists>c. save_JPEG L (retail_to_rgb L im) (95 - 5 * int j) = Inr c"
  shows "\<exists>r. fst (optimize_for_retail L im) = Returned r \<and> metBudget r \<and>
             int (length (out_bytes r)) < 500 * 1024 \<and>
             length (snd (optimize_for_retail L im)) \<le> Suc k"
proof -
  let ?log = "snd (optimize_for_retail L im)"
  have "\<exists>r. fst (retail_loop L (retail_to_rgb L im) 95 0) = Returned r \<and> metBudget r"
  proof (rule retail_loop_reaches[OF assms(2,3)])
    show "10 \<le> 95 - 5 * int k" using assms(1) by simp
    show "0 + int k < 20" using assms(1) by simp
    show "\<forall>j<k. \<exists>c. save_JPEG L (retail_to_rgb L im) (95 - 5 * int j) = Inr c" by fact
  qed
  then obtain r where r: "fst (optimize_for_retail L im) = Returned r" "metBudget r"
    by (auto simp: optimize_for_retail_fst)
  have "length ?log \<le> Suc k"
  proof (rule ccontr)
    assume "\<not> length ?log \<le> Suc k"
    then have k: "k < length (butlast ?log)" and k': "k < length ?log" by simp_all
    then have "butlast ?log ! k \<in> set (butlast ?log)" by simp
    then have "?log ! k \<in> set (butlast ?log)" using k by (simp add: nth_butlast)
    from retail_earlier_over[OF this] retail_attempt[OF k'] assms(2,3)
    show False by simp
  qed
  with retail_result[OF r(1)] r show ?thesis by auto
qed

lemma export_reaches_range:
  assumes "Image_open L d = Inr img" and "int k < m"
    and "save_JPEG L ((next_image L ^^ Suc k) (export_to_rgb L img))
           (max 10 (85 - 5 * (int k + 1))) = Inr b"
    and "int (length b) \<le> t * 1024"
    and "\<forall>j<k. \<exists>c. save_JPEG L ((next_image L ^^ Suc j) (export_to_rgb L img))
                    (max 10 (85 - 5 * (int j + 1))) = Inr c"
  shows "\<exists>r. fst (optimize_export L d t m) = Returned r \<and> metBudget r \<and>
             int (length (out_bytes r)) \<le> t * 1024 \<and>
             length (snd (optimize_export L d t m)) \<le> Suc k"
proof -
  let ?log = "snd (optimize_export L d t m)"
  have q: "(next_quality ^^ Suc j) 85 = max 10 (85 - 5 * (int j + 1))" for j
    using next_quality_funpow[of 85 "Suc j"] by (simp add: algebra_simps)
  have "\<exists>r. fst (export_loop L (t * 1024) m (export_to_rgb L img) 85 0 (int (length d)) d)
              = Returned r \<and> metBudget r"
  proof (rule export_loop_reaches[OF _ assms(4)])
    show "save_JPEG L ((next_image L ^^ Suc k) (export_to_rgb L img)) ((next_quality ^^ Suc k) 85)
            = Inr b"
      using assms(3) by (simp only: q)
    show "0 + int k < m" using assms(2) by simp
    show "\<forall>j<k. \<exists>c. save_JPEG L ((next_image L ^^ Suc j) (export_to_rgb L img))
                 ((next_quality ^^ Suc j) 85) = Inr c"
      using assms(5) by (simp only: q)
  qed
  then obtain r where r: "fst (optimize_export L d t m) = Returned r" "metBudget r"
    using assms(1) by (auto simp: optimize_export_fst)
  have "length ?log \<le> Suc k"
  proof (rule ccontr)
    assume "\<not> length ?log \<le> Suc k"
    then have k: "k < length (butlast ?log)" and k': "k < length ?log" by simp_all
    then have "butlast ?log ! k \<in> set (butlast ?log)" by simp
    then have "?log ! k \<in> set (butlast ?log)" using k by (simp add: nth_butlast)
    from export_earlier_over[OF assms(1) this] export_attempt[OF assms(1) k'] assms(3,4)
    show False by simp
  qed
  with export_result[OF assms(1) r(1)] r show ?thesis by auto
qed

lemma rgb_only_export_run:
  "optimize_export (sample_pil (sample_image ''RGB'') rgb_only_encoder) (blob 2000) 1 10 =
     (Returned \<lparr>out_bytes = blob 600000, out_quality = 35, out_iteration = 10,
        out_image = \<lparr>mode = ''RGB'', width = 100, height = 100, pixels = []\<rparr>,
        metBudget = False\<rparr>,
      map (\<lambda>(w, q). \<lparr>att_image = \<lparr>mode = ''RGB'', width = w, height = w, pixels = []\<rparr>,
                      att_quality = q\<rparr>)
        [(114, 80), (108, 75), (102, 70), (100, 65), (100, 60), (100, 55), (100, 50),
         (100, 45), (100, 40), (100, 35)])"
  by (simp add: optimize_export_def export_to_rgb_def sample_pil_def sample_image_def
        rgb_only_encoder_def export_loop_step next_image_literal next_quality_def scale95_def)

lemma small_source_export_run:
  "optimize_export (sample_pil small_image rgb_only_encoder) (blob 2000) 1 2 =
     (Returned \<lparr>out_bytes = blob 600000, out_quality = 75, out_iteration = 2,
        out_image = \<lparr>mode = ''RGB'', width = 100, height = 100, pixels = []\<rparr>,
        metBudget = False\<rparr>,
      [\<lparr>att_image = \<lparr>mode = ''RGB'', width = 100, height = 100, pixels = []\<rparr>,
        att_quality = 80\<rparr>,
       \<lparr>att_image = \<lparr>mode = ''RGB'', width = 100, height = 100, pixels = []\<rparr>,
        att_quality = 75\<rparr>])"
  by (simp add: optimize_export_def export_to_rgb_def sample_pil_def small_image_def
        rgb_only_encoder_def export_loop_step next_image_literal next_quality_def scale95_def)

lemma next_image_size:
  "width (next_image L im) = max 100 (width im * 19 div 20)"
  "height (next_image L im) = max 100 (height im * 19 div 20)"
  "next_image L im =
     resize L im (max 100 (width im * 19 div 20)) (max 100 (height im * 19 div 20))"
  by (simp_all add: next_image_def resize_def scale95_def)

lemma shrink_above_floor: "100 < (w::nat) \<Longrightarrow> max 100 (w * 19 div 20) < w"
  by simp

lemma stay_at_floor: "max 100 ((100::nat) * 19 div 20) = 100"
  by simp

lemma export_first_call:
  assumes "Image_open L d = Inr img" and "snd (optimize_export L d t m) \<noteq> []"
  shows "snd (optimize_export L d t m) ! 0 =
           \<lparr>att_image = next_image L (export_to_rgb L img), att_quality = 80\<rparr>"
  using export_attempt[OF assms(1), of 0 t m] assms(2) by simp

lemma export_next_call:
  assumes "Image_open L d = Inr img" and "Suc k < length (snd (optimize_export L d t m))"
  shows "att_image (snd (optimize_export L d t m) ! Suc k) =
           next_image L (att_image (snd (optimize_export L d t m) ! k)) \<and>
         att_quality (snd (optimize_export L d t m) ! Suc k) =
           max 10 (att_quality (snd (optimize_export L d t m) ! k) - 5)"
  using export_loop_recurrence[of k L "t * 1024" m "export_to_rgb L img" 85 0 "int (length d)" d]
    assms
  by (simp add: optimize_export_snd next_quality_def)

lemma export_miss_calls:
  assumes "Image_open L d = Inr img" and "t * 1024 < int (length d)"
    and "\<forall>k. int k < m \<longrightarrow>
           (\<exists>b. save_JPEG L ((next_image L ^^ Suc k) (export_to_rgb L img))
                  (max 10 (85 - 5 * (int k + 1))) = Inr b \<and> t * 1024 < int (length b))"
  shows "length (snd (optimize_export L d t m)) = nat m \<and>
         (\<exists>r. fst (optimize_export L d t m) = Returned r \<and> \<not> metBudget r)"
proof -
  have "\<forall>k. 0 + int k < m \<longrightarrow>
          (\<exists>b. save_JPEG L ((next_image L ^^ Suc k) (export_to_rgb L img))
                 ((next_quality ^^ Suc k) 85) = Inr b \<and> t * 1024 < int (length b))"
  proof (intro allI impI)
    fix k :: nat assume "0 + int k < m"
    then have "int k < m" by simp
    moreover have "(next_quality ^^ Suc k) 85 = max 10 (85 - 5 * (int k + 1))"
      using next_quality_funpow[of 85 "Suc k"] by (simp add: algebra_simps)
    ultimately show "\<exists>b. save_JPEG L ((next_image L ^^ Suc k) (export_to_rgb L img))
                 ((next_quality ^^ Suc k) 85) = Inr b \<and> t * 1024 < int (length b)"
      using assms(3) by simp
  qed
  from export_loop_miss_range[OF this assms(2), of d] assms(1) show ?thesis
    by (auto simp: optimize_export_fst optimize_export_snd)
qed

lemma module_c_loop_step:
  "module_c_loop L p img q it sz fs =
     (if sz > 512000 \<and> q \<ge> 65 then
        (case save_JPEG L img (q - 5) of
           Inl e \<Rightarrow> \<lparr>returned = None, disk = fs,
                     saves = [\<lparr>att_image = img, att_quality = q - 5\<rparr>]\<rparr>
         | Inr data \<Rightarrow>
             if it + 1 \<ge> 20
             then \<lparr>returned = Some p, disk = fs(p \<mapsto> data),
                    saves = [\<lparr>att_image = img, att_quality = q - 5\<rparr>]\<rparr>
             else log_save \<lparr>att_image = img, att_quality = q - 5\<rparr>
                    (module_c_loop L p img (q - 5) (it + 1) (int (length data)) (fs(p \<mapsto> data))))
      else \<lparr>returned = Some p, disk = fs, saves = []\<rparr>)"
  by (cases "sz > 512000 \<and> q \<ge> 65"; cases "save_JPEG L img (q - 5)"; cases "it + 1 \<ge> 20")
     (auto simp: module_c_loop_exit module_c_loop_fail module_c_loop_break module_c_loop_next
        log_save_def simp del: fun_upd_apply)

lemma big_file_lookup [simp]:
  "big_file ''out.jpg'' = Some (blob 600000)" "big_file ''logo.png'' = Some (blob 100)"
  by (simp_all add: big_file_def)

lemma heavy_file_run:
  "recursive_optimize_export (sample_pil (sample_image ''RGB'') rgb_only_encoder)
      ''out.jpg'' big_file =
     \<lparr>returned = Some ''out.jpg'', disk = big_file(''out.jpg'' \<mapsto> blob 600000),
      saves = map (\<lambda>q. \<lparr>att_image = sample_image ''RGB'', att_quality = q\<rparr>)
                [90, 85, 80, 75, 70, 65, 60]\<rparr>"
  by (simp add: recursive_optimize_export_def module_c_to_rgb_def sample_image_def
        MAX_FILE_SIZE_KB_def QUALITY_START_def rgb_only_encoder_def module_c_loop_step
        log_save_def del: fun_upd_apply)

lemma linear_file_run:
  "recursive_optimize_export (sample_pil (sample_image ''RGB'') linear_encoder)
      ''out.jpg'' big_file =
     \<lparr>returned = Some ''out.jpg'', disk = big_file(''out.jpg'' \<mapsto> blob 510000),
      saves = map (\<lambda>q. \<lparr>att_image = sample_image ''RGB'', att_quality = q\<rparr>) [90, 85]\<rparr>"
  by (simp add: recursive_optimize_export_def module_c_to_rgb_def sample_image_def
        MAX_FILE_SIZE_KB_def QUALITY_START_def linear_encoder_def module_c_loop_step
        log_save_def del: fun_upd_apply)


lemma small_export_run:
  "optimize_export (sample_pil (sample_image ''RGB'') rgb_only_encoder) (blob 100) 1 10 =
     (Returned \<lparr>out_bytes = blob 100, out_quality = 85, out_iteration = 0,
        out_image = sample_image ''RGB'', metBudget = True\<rparr>, [])"
  by (simp add: optimize_export_def export_to_rgb_def sample_image_def export_loop_step)

lemma late_failing_file_run:
  "recursive_optimize_export (sample_pil (sample_image ''RGB'') late_failing_encoder)
      ''out.jpg'' big_file =
     \<lparr>returned = None, disk = big_file(''out.jpg'' \<mapsto> blob 600000),
      saves = map (\<lambda>q. \<lparr>att_image = sample_image ''RGB'', att_quality = q\<rparr>) [90, 85, 80, 75]\<rparr>"
  by (simp add: recursive_optimize_export_def module_c_to_rgb_def sample_image_def
        MAX_FILE_SIZE_KB_def QUALITY_START_def late_failing_encoder_def module_c_loop_step
        log_save_def del: fun_upd_apply)

lemma late_failing_retail_run:
  "optimize_for_retail (sample_pil (sample_image ''RGB'') late_failing_encoder)
      (sample_image ''RGB'') =
     (Raised ''Error in optimize_for_retail: encoder error'',
      map (\<lambda>q. \<lparr>att_image = sample_image ''RGB'', att_quality = q\<rparr>) [95, 90, 85, 80, 75])"
  by (simp add: optimize_for_retail_def retail_to_rgb_def sample_image_def
        late_failing_encoder_def retail_loop.simps)

lemma late_failing_export_run:
  "optimize_export (sample_pil (sample_image ''RGB'') late_failing_encoder) (blob 2000) 1 10 =
     (Raised ''Error optimizing export: encoder error'',
      [\<lparr>att_image = \<lparr>mode = ''RGB'', width = 114, height = 114, pixels = []\<rparr>, att_quality = 80\<rparr>,
       \<lparr>att_image = \<lparr>mode = ''RGB'', width = 108, height = 108, pixels = []\<rparr>, att_quality = 75\<rparr>])"
  by (simp add: optimize_export_def export_to_rgb_def sample_pil_def sample_image_def
        late_failing_encoder_def export_loop_step next_image_literal next_quality_def scale95_def)

lemma small_file_run:
  "recursive_optimize_export (sample_pil (sample_image ''RGB'') rgb_only_encoder)
      ''logo.png'' big_file = \<lparr>returned = Some ''logo.png'', disk = big_file, saves = []\<rparr>"
  by (simp add: recursive_optimize_export_def MAX_FILE_SIZE_KB_def)

lemma export_small_input:
  assumes "Image_open L d = Inr img" and "int (length d) \<le> t * 1024"
  shows "optimize_export L d t m =
           (Returned \<lparr>out_bytes = d, out_quality = 85, out_iteration = 0,
              out_image = export_to_rgb L img, metBudget = True\<rparr>, [])"
  using assms by (simp add: optimize_export_def export_loop_done)

lemma module_c_small_file:
  assumes "fs p = Some c" and "int (length c) \<le> 500 * 1024"
  shows "recursive_optimize_export L p fs = \<lparr>returned = Some p, disk = fs, saves = []\<rparr>"
  using assms by (simp add: recursive_optimize_export_def MAX_FILE_SIZE_KB_def)

lemma retail_first_call:
  "snd (optimize_for_retail L im) \<noteq> [] \<and>
   snd (optimize_for_retail L im) ! 0 = \<lparr>att_image = retail_to_rgb L im, att_quality = 95\<rparr>"
proof -
  have ne: "snd (optimize_for_retail L im) \<noteq> []"
    using retail_loop_nonempty[of 0 L "retail_to_rgb L im" 95] by (simp add: optimize_for_retail_snd)
  then have "0 < length (snd (optimize_for_retail L im))" by simp
  from retail_attempt[OF this] ne show ?thesis by simp
qed

lemma retail_first_success:
  assumes "save_JPEG L (retail_to_rgb L im) 95 = Inr b" and "int (length b) < 500 * 1024"
  shows "optimize_for_retail L im =
           (Returned \<lparr>out_bytes = b, out_quality = 95, out_iteration = 1,
              out_image = retail_to_rgb L im, metBudget = True\<rparr>,
            [\<lparr>att_image = retail_to_rgb L im, att_quality = 95\<rparr>])"
  using assms by (simp add: optimize_for_retail_def retail_loop_met)

lemma recursive_optimize_export_loop:
  assumes "fs p = Some c" and "500 * 1024 < int (length c)" and "Image_open L c = Inr img"
  shows "recursive_optimize_export L p fs =
           module_c_loop L p (module_c_to_rgb L img) 95 0 (int (length c)) fs"
  using assms
  by (simp add: recursive_optimize_export_def MAX_FILE_SIZE_KB_def QUALITY_START_def)

lemma recursive_optimize_export_cases [case_names missing small undecoded loop]:
  assumes "fs p = None \<Longrightarrow> P"
    and "\<And>c. fs p = Some c \<Longrightarrow> int (length c) \<le> 500 * 1024 \<Longrightarrow> P"
    and "\<And>c e. fs p = Some c \<Longrightarrow> 500 * 1024 < int (length c) \<Longrightarrow> Image_open L c = Inl e \<Longrightarrow> P"
    and "\<And>c img. fs p = Some c \<Longrightarrow> 500 * 1024 < int (length c) \<Longrightarrow>
            Image_open L c = Inr img \<Longrightarrow> P"
  shows P
proof (cases "fs p")
  case None
  then show ?thesis by (rule assms(1))
next
  case (Some c)
  show ?thesis
  proof (cases "int (length c) \<le> 500 * 1024")
    case True
    with Some show ?thesis by (rule assms(2))
  next
    case False
    then have big: "500 * 1024 < int (length c)" by simp
    show ?thesis
    proof (cases "Image_open L c")
      case (Inl e)
      with Some big show ?thesis by (rule assms(3))
    next
      case (Inr img)
      with Some big show ?thesis by (rule assms(4))
    qed
  qed
qed

lemma module_c_missing_file:
  "fs p = None \<Longrightarrow>
   recursive_optimize_export L p fs = \<lparr>returned = None, disk = fs, saves = []\<rparr>"
  by (simp add: recursive_optimize_export_def)

lemma module_c_undecoded:
  "fs p = Some c \<Longrightarrow> 500 * 1024 < int (length c) \<Longrightarrow> Image_open L c = Inl e \<Longrightarrow>
   recursive_optimize_export L p fs = \<lparr>returned = None, disk = fs, saves = []\<rparr>"
  by (simp add: recursive_optimize_export_def MAX_FILE_SIZE_KB_def)

lemma module_c_loop_images:
  assumes "att \<in> set (saves (module_c_loop L p img q it sz fs))"
  shows "att_image att = img"
proof -
  from assms obtain k where k: "k < length (saves (module_c_loop L p img q it sz fs))"
    and att: "att = saves (module_c_loop L p img q it sz fs) ! k"
    by (auto simp: in_set_conv_nth)
  from module_c_loop_attempts[OF k] att show ?thesis by simp
qed

lemma module_c_frame:
  "p' \<noteq> p \<Longrightarrow> disk (recursive_optimize_export L p fs) p' = fs p'"
proof (cases rule: recursive_optimize_export_cases[where fs=fs and p=p and L=L])
  case missing
  then show ?thesis by (simp add: module_c_missing_file)
next
  case (small c)
  then show ?thesis by (simp add: module_c_small_file)
next
  case (undecoded c e)
  then show ?thesis by (simp add: module_c_undecoded)
next
  case (loop c img)
  assume "p' \<noteq> p"
  then show ?thesis
    by (simp add: recursive_optimize_export_loop[where fs=fs and p=p, OF loop] module_c_loop_frame)
qed


lemma module_c_overwrites:
  assumes "returned (recursive_optimize_export L p fs) \<noteq> None"
    and "saves (recursive_optimize_export L p fs) \<noteq> []"
  shows "\<exists>b. save_JPEG L (att_image (last (saves (recursive_optimize_export L p fs))))
               (att_quality (last (saves (recursive_optimize_export L p fs)))) = Inr b \<and>
             disk (recursive_optimize_export L p fs) p = Some b"
proof (cases rule: recursive_optimize_export_cases[where fs=fs and p=p and L=L])
  case missing
  with assms show ?thesis by (simp add: module_c_missing_file)
next
  case (small c)
  with assms show ?thesis by (simp add: module_c_small_file)
next
  case (undecoded c e)
  with assms show ?thesis by (simp add: module_c_undecoded)
next
  case (loop c img)
  let ?run = "module_c_loop L p (module_c_to_rgb L img) 95 0 (int (length c)) fs"
  have eq: "recursive_optimize_export L p fs = ?run" by (rule recursive_optimize_export_loop[where fs=fs and p=p, OF loop])
  from assms have r: "returned ?run \<noteq> None" and s: "saves ?run \<noteq> []" by (simp_all add: eq)
  from s have "last (saves ?run) \<in> set (saves ?run)" by simp
  then have img: "att_image (last (saves ?run)) = module_c_to_rgb L img"
    by (rule module_c_loop_images)
  from module_c_loop_written[OF r s] img show ?thesis by (auto simp: eq)
qed

lemma module_c_earlier_saved:
  assumes "att \<in> set (butlast (saves (recursive_optimize_export L p fs)))"
  shows "\<exists>b. save_JPEG L (att_image att) (att_quality att) = Inr b \<and> 500 * 1024 < int (length b)"
proof (cases rule: recursive_optimize_export_cases[where fs=fs and p=p and L=L])
  case missing
  with assms show ?thesis by (simp add: module_c_missing_file)
next
  case (small c)
  with assms show ?thesis by (simp add: module_c_small_file)
next
  case (undecoded c e)
  with assms show ?thesis by (simp add: module_c_undecoded)
next
  case (loop c img)
  let ?run = "module_c_loop L p (module_c_to_rgb L img) 95 0 (int (length c)) fs"
  have eq: "recursive_optimize_export L p fs = ?run" by (rule recursive_optimize_export_loop[where fs=fs and p=p, OF loop])
  from assms have a: "att \<in> set (butlast (saves ?run))" by (simp add: eq)
  then have "att \<in> set (saves ?run)" by (rule in_set_butlastD)
  then have "att_image att = module_c_to_rgb L img" by (rule module_c_loop_images)
  with module_c_loop_butlast[OF a] show ?thesis by simp
qed

lemma module_c_failed_save:
  assumes "saves (recursive_optimize_export L p fs) \<noteq> []"
    and "save_JPEG L (att_image (last (saves (recursive_optimize_export L p fs))))
           (att_quality (last (saves (recursive_optimize_export L p fs)))) = Inl e"
  shows "returned (recursive_optimize_export L p fs) = None"
proof (rule ccontr)
  assume "returned (recursive_optimize_export L p fs) \<noteq> None"
  from module_c_overwrites[OF this assms(1)] assms(2) show False by auto
qed

lemma retail_failed_save:
  assumes "save_JPEG L (retail_to_rgb L im)
             (att_quality (last (snd (optimize_for_retail L im)))) = Inl e"
  shows "fst (optimize_for_retail L im) = Raised (''Error in optimize_for_retail: '' @ e)"
proof (cases "fst (optimize_for_retail L im)")
  case (Raised e0)
  from retail_raise_is_codec[OF this] assms Raised show ?thesis by auto
next
  case (Returned r)
  from retail_result[OF this] assms show ?thesis by simp
qed

lemma retail_earlier_saved:
  assumes "att \<in> set (butlast (snd (optimize_for_retail L im)))"
  shows "\<exists>b. save_JPEG L (retail_to_rgb L im) (att_quality att) = Inr b"
  using retail_earlier_over[OF assms] by blast

lemma export_failed_save:
  assumes "Image_open L d = Inr img" and "snd (optimize_export L d t m) \<noteq> []"
    and "save_JPEG L (att_image (last (snd (optimize_export L d t m))))
           (att_quality (last (snd (optimize_export L d t m)))) = Inl e"
  shows "fst (optimize_export L d t m) = Raised (''Error optimizing export: '' @ e)"
proof (cases "fst (optimize_export L d t m)")
  case (Raised e0)
  from export_raise_is_codec[OF assms(1) this] assms(3) Raised show ?thesis by auto
next
  case (Returned r)
  from export_result[OF assms(1) this] assms(2,3) show ?thesis by simp
qed




lemma flatten_white_literal:
  "flatten_white L im =
     \<lparr>mode = ''RGB'', width = width im, height = height im, pixels = paste_alpha L im\<rparr>"
  by (simp add: flatten_white_def)




text \<open>The conversion of \<open>optimize_for_retail\<close> on the store of image objects.\<close>

lemma retail_to_rgb_at_working:
  assumes "objects s a = Some im" and "a < next_free s"
  shows "objects (snd (retail_to_rgb_at L a im s)) (fst (retail_to_rgb_at L a im s))
           = Some (retail_to_rgb L im) \<and>
         objects (snd (retail_to_rgb_at L a im s)) a = Some im \<and>
         (\<forall>b. b < next_free s \<longrightarrow> objects (snd (retail_to_rgb_at L a im s)) b = objects s b) \<and>
         (mode im = ''RGB'' \<longrightarrow> retail_to_rgb_at L a im s = (a, s)) \<and>
         (mode im \<noteq> ''RGB'' \<longrightarrow> fst (retail_to_rgb_at L a im s) = next_free s)"
  using assms by (auto simp: retail_to_rgb_at_def retail_to_rgb_def allocate_def)

lemma optimize_for_retail_at_frame:
  assumes "objects s a = Some im" and "a < next_free s"
  shows "\<exists>s'. optimize_for_retail_at L a s = Some (optimize_for_retail L im, s') \<and>
              objects s' a = Some im \<and>
              (\<forall>b. b < next_free s \<longrightarrow> objects s' b = objects s b) \<and>
              (mode im = ''RGB'' \<longrightarrow> s' = s)"
proof -
  obtain w s' where ws: "retail_to_rgb_at L a im s = (w, s')"
    by (cases "retail_to_rgb_at L a im s")
  from retail_to_rgb_at_working[OF assms, of L] ws
  have w: "objects s' w = Some (retail_to_rgb L im)" and a: "objects s' a = Some im"
    and fr: "\<forall>b. b < next_free s \<longrightarrow> objects s' b = objects s b"
    and same: "mode im = ''RGB'' \<longrightarrow> s' = s"
    by simp_all
  have "optimize_for_retail_at L a s = Some (optimize_for_retail L im, s')"
    using assms(1) ws w by (simp add: optimize_for_retail_at_def optimize_for_retail_def)
  with a fr same show ?thesis by blast
qed

lemma sample_store_simps:
  "objects sample_store 0 = Some (sample_image ''RGBA'')" "next_free sample_store = 1"
  by (simp_all add: sample_store_def)

section \<open>Results\<close>

text \<open>
  C2. Bounded termination. All three functions are total (each loop is defined with a
  termination proof), and none makes more encoder calls than its iteration cap: 20 for
  \<open>optimize_for_retail\<close> and \<open>recursive_optimize_export\<close>, \<open>max_iterations\<close> for
  \<open>optimize_export\<close>, whether or not the byte budget can be reached.
\<close>

theorem bounded_encode_attempts:
  "length (snd (optimize_for_retail L im)) \<le> 20 \<and>
   int (length (snd (optimize_export L image_data target_size_kb max_iterations)))
     \<le> max 0 max_iterations \<and>
   length (saves (recursive_optimize_export L file_path fs)) \<le> 20"
proof -
  have "length (snd (retail_loop L (retail_to_rgb L im) 95 0)) \<le> nat (20 - 0)"
    by (rule retail_loop_length_cap)
  then have "length (snd (optimize_for_retail L im)) \<le> 20"
    by (simp add: optimize_for_retail_snd)
  then show ?thesis
    using optimize_export_length recursive_optimize_export_length by blast
qed

text \<open>
  C10. In \<open>optimize_for_retail\<close> the \<^verbatim>\<open>raise\<close> after the loop cannot be reached. The
  \<open>k\<close>-th encoder call (counting from 0) uses quality \<open>95 - 5 k\<close>, there are at most 18
  calls, an exception that leaves the function is always the encoder's own (re-raised with
  the prefix), so with an encoder that does not fail a buffer is returned; and when the
  budget is never met the run has exactly 18 calls, the last one at quality 10.
\<close>

theorem retail_terminal_raise_unreachable:
  "length (snd (optimize_for_retail L im)) \<le> 18 \<and>
   (\<forall>k < length (snd (optimize_for_retail L im)).
      att_quality (snd (optimize_for_retail L im) ! k) = 95 - 5 * int k) \<and>
   (\<forall>e. fst (optimize_for_retail L im) = Raised e \<longrightarrow>
      (\<exists>e'. e = ''Error in optimize_for_retail: '' @ e' \<and>
            save_JPEG L (retail_to_rgb L im)
              (att_quality (last (snd (optimize_for_retail L im)))) = Inl e')) \<and>
   ((\<forall>q. \<exists>b. save_JPEG L (retail_to_rgb L im) q = Inr b) \<longrightarrow>
      (\<exists>r. fst (optimize_for_retail L im) = Returned r)) \<and>
   (\<forall>r. fst (optimize_for_retail L im) = Returned r \<and> \<not> metBudget r \<longrightarrow>
      length (snd (optimize_for_retail L im)) = 18 \<and>
      att_quality (last (snd (optimize_for_retail L im))) = 10)"
proof -
  let ?im = "retail_to_rgb L im"
  let ?run = "retail_loop L ?im 95 0"
  let ?log = "snd ?run"
  have log: "snd (optimize_for_retail L im) = ?log" by (rule optimize_for_retail_snd)
  have len: "length ?log \<le> 18"
    using retail_loop_length_quality[of 95 L ?im 0] by simp
  have quals: "\<forall>k < length ?log. att_quality (?log ! k) = 95 - 5 * int k"
    by (simp add: retail_loop_qualities)
  have ne: "?log \<noteq> []" by (rule retail_loop_nonempty) simp
  have lastq: "att_quality (last ?log) = 95 - 5 * int (length ?log - 1)"
    using ne quals by (simp add: last_conv_nth)
  have raised: "\<exists>e'. e = ''Error in optimize_for_retail: '' @ e' \<and>
       save_JPEG L ?im (att_quality (last ?log)) = Inl e'"
    if "fst (optimize_for_retail L im) = Raised e" for e
  proof (cases "fst ?run")
    case (Raised e')
    then have "?run = (Raised e', ?log)" by (simp add: prod_eq_iff)
    from retail_loop_raised[OF this] have "save_JPEG L ?im (att_quality (last ?log)) = Inl e'"
      by simp
    moreover from that Raised have "e = ''Error in optimize_for_retail: '' @ e'"
      by (simp add: optimize_for_retail_fst)
    ultimately show ?thesis by blast
  next
    case (Returned r)
    with that show ?thesis by (simp add: optimize_for_retail_fst)
  qed
  have total: "\<exists>r. fst (optimize_for_retail L im) = Returned r"
    if "\<forall>q. \<exists>b. save_JPEG L ?im q = Inr b"
  proof (cases "fst (optimize_for_retail L im)")
    case (Raised e)
    from raised[OF this] that show ?thesis by (metis sum.distinct(1))
  next
    case (Returned r)
    then show ?thesis by blast
  qed
  have floor: "length ?log = 18 \<and> att_quality (last ?log) = 10"
    if "fst (optimize_for_retail L im) = Returned r" "\<not> metBudget r" for r
  proof -
    from that(1) have "fst ?run = Returned r"
      by (cases "fst ?run") (simp_all add: optimize_for_retail_fst)
    then have "?run = (Returned r, ?log)" by (simp add: prod_eq_iff)
    from retail_loop_returned[OF this] that(2) have "att_quality (last ?log) - 5 < 10" by simp
    with lastq len ne show ?thesis by (cases ?log) auto
  qed
  show ?thesis
    unfolding log using len quals raised total floor unfolding log by blast
qed

theorem retail_terminal_raise_unreachable_witness:
  "length (snd (optimize_for_retail (sample_pil (sample_image ''RGB'') heavy_encoder)
      (sample_image ''RGB''))) = 18 \<and>
   att_quality (last (snd (optimize_for_retail (sample_pil (sample_image ''RGB'') heavy_encoder)
      (sample_image ''RGB'')))) = 10 \<and>
   att_quality (snd (optimize_for_retail (sample_pil (sample_image ''RGB'') heavy_encoder)
      (sample_image ''RGB'')) ! 17) = 95 - 5 * 17"
  using retail_terminal_raise_unreachable
    [of "sample_pil (sample_image ''RGB'') heavy_encoder" "sample_image ''RGB''"]
  by (simp add: heavy_retail_run)

text \<open>
  C3, as stated, fails on \<open>optimize_export\<close> at the boundary. The spec's budget is a
  size strictly under the target, but the function warns only when
  \<^verbatim>\<open>current_size > target_bytes\<close>. With a 1 KB target and an encoder that gives 1024 bytes
  at quality 80 and 2000 bytes otherwise, no encoding is strictly under the target, yet
  the call returns the 1024-byte buffer after one iteration without the warning.
\<close>

theorem export_exact_hit_reports_success:
  "optimize_export (sample_pil (sample_image ''RGB'') exact_encoder) (blob 2000) 1 10 =
     (Returned \<lparr>out_bytes = blob 1024, out_quality = 80, out_iteration = 1,
        out_image = \<lparr>mode = ''RGB'', width = 114, height = 114, pixels = []\<rparr>,
        metBudget = True\<rparr>,
      [\<lparr>att_image = \<lparr>mode = ''RGB'', width = 114, height = 114, pixels = []\<rparr>,
        att_quality = 80\<rparr>]) \<and>
   \<not> int (length (blob 1024)) < 1 * 1024 \<and> \<not> int (length (blob 2000)) < 1 * 1024"
  by (simp add: exact_export_run)

text \<open>
  C3, amended. Neither function fails for a missed budget: an exception that leaves
  \<open>optimize_for_retail\<close> or \<open>optimize_export\<close> (the input of the latter decoding) is
  always the failure of the last encoder call, re-raised with the prefix. When each of
  the 18 encodings at qualities 95, 90, ..., 10 succeeds and is not under 500 KB,
  \<open>optimize_for_retail\<close> returns the encoding at quality 10 with \<open>metBudget\<close> false.
  When the input is over \<open>target_bytes\<close>, the cap is positive and each of the
  \<open>max_iterations\<close> encodings of the loop succeeds and is over \<open>target_bytes\<close>,
  \<open>optimize_export\<close> returns the last of them with \<open>metBudget\<close> false. Only the encoder
  calls the loop makes are assumed to succeed; the witness uses an encoder that refuses
  every mode but RGB. Whenever a call returns, \<open>metBudget\<close> says whether the returned
  buffer is under 500 KB for \<open>optimize_for_retail\<close>, and whether it is at most
  \<open>target_bytes\<close> for \<open>optimize_export\<close>.
\<close>

theorem budget_miss_is_returned:
  "(\<forall>e. fst (optimize_for_retail L im) = Raised e \<longrightarrow>
      (\<exists>e'. e = ''Error in optimize_for_retail: '' @ e' \<and>
            snd (optimize_for_retail L im) \<noteq> [] \<and>
            save_JPEG L (retail_to_rgb L im)
              (att_quality (last (snd (optimize_for_retail L im)))) = Inl e')) \<and>
   ((\<forall>k<18. \<exists>b. save_JPEG L (retail_to_rgb L im) (95 - 5 * int k) = Inr b \<and>
               \<not> int (length b) < 500 * 1024) \<longrightarrow>
      (\<exists>r. fst (optimize_for_retail L im) = Returned r \<and> \<not> metBudget r \<and>
           length (snd (optimize_for_retail L im)) = 18 \<and>
           save_JPEG L (retail_to_rgb L im) 10 = Inr (out_bytes r))) \<and>
   (Image_open L image_data = Inr img \<longrightarrow>
      (\<forall>e. fst (optimize_export L image_data target_size_kb max_iterations) = Raised e \<longrightarrow>
         (\<exists>e'. e = ''Error optimizing export: '' @ e' \<and>
               snd (optimize_export L image_data target_size_kb max_iterations) \<noteq> [] \<and>
               save_JPEG L
                 (att_image (last (snd (optimize_export L image_data target_size_kb max_iterations))))
                 (att_quality (last (snd (optimize_export L image_data target_size_kb max_iterations))))
                 = Inl e')) \<and>
      (target_size_kb * 1024 < int (length image_data) \<and> 0 < max_iterations \<and>
       (\<forall>k. int k < max_iterations \<longrightarrow>
          (\<exists>b. save_JPEG L ((next_image L ^^ Suc k) (export_to_rgb L img))
                 (max 10 (85 - 5 * (int k + 1))) = Inr b \<and>
               target_size_kb * 1024 < int (length b))) \<longrightarrow>
         (\<exists>r. fst (optimize_export L image_data target_size_kb max_iterations) = Returned r \<and>
              \<not> metBudget r \<and>
              length (snd (optimize_export L image_data target_size_kb max_iterations))
                = nat max_iterations \<and>
              save_JPEG L
                (att_image (last (snd (optimize_export L image_data target_size_kb max_iterations))))
                (att_quality (last (snd (optimize_export L image_data target_size_kb max_iterations))))
                = Inr (out_bytes r)))) \<and>
   (\<forall>r. fst (optimize_for_retail L im) = Returned r \<longrightarrow>
      metBudget r = (int (length (out_bytes r)) < 500 * 1024)) \<and>
   (Image_open L image_data = Inr img \<longrightarrow>
      (\<forall>r. fst (optimize_export L image_data target_size_kb max_iterations) = Returned r \<longrightarrow>
         metBudget r = (int (length (out_bytes r)) \<le> target_size_kb * 1024)))"
proof (intro conjI impI allI)
  fix e assume "fst (optimize_for_retail L im) = Raised e"
  then show "\<exists>e'. e = ''Error in optimize_for_retail: '' @ e' \<and>
            snd (optimize_for_retail L im) \<noteq> [] \<and>
            save_JPEG L (retail_to_rgb L im)
              (att_quality (last (snd (optimize_for_retail L im)))) = Inl e'"
    by (rule retail_raise_is_codec)
next
  assume "\<forall>k<18. \<exists>b. save_JPEG L (retail_to_rgb L im) (95 - 5 * int k) = Inr b \<and>
               \<not> int (length b) < 500 * 1024"
  then show "\<exists>r. fst (optimize_for_retail L im) = Returned r \<and> \<not> metBudget r \<and>
           length (snd (optimize_for_retail L im)) = 18 \<and>
           save_JPEG L (retail_to_rgb L im) 10 = Inr (out_bytes r)"
    by (rule retail_miss)
next
  fix e
  let ?run = "optimize_export L image_data target_size_kb max_iterations"
  assume "Image_open L image_data = Inr img" "fst ?run = Raised e"
  then show "\<exists>e'. e = ''Error optimizing export: '' @ e' \<and> snd ?run \<noteq> [] \<and>
               save_JPEG L (att_image (last (snd ?run))) (att_quality (last (snd ?run))) = Inl e'"
    by (rule export_raise_is_codec)
next
  let ?run = "optimize_export L image_data target_size_kb max_iterations"
  assume op: "Image_open L image_data = Inr img"
    and a: "target_size_kb * 1024 < int (length image_data) \<and> 0 < max_iterations \<and>
       (\<forall>k. int k < max_iterations \<longrightarrow>
          (\<exists>b. save_JPEG L ((next_image L ^^ Suc k) (export_to_rgb L img))
                 (max 10 (85 - 5 * (int k + 1))) = Inr b \<and>
               target_size_kb * 1024 < int (length b)))"
  from a have a1: "target_size_kb * 1024 < int (length image_data)" and a2: "0 < max_iterations"
    and a3: "\<forall>k. int k < max_iterations \<longrightarrow>
          (\<exists>b. save_JPEG L ((next_image L ^^ Suc k) (export_to_rgb L img))
                 (max 10 (85 - 5 * (int k + 1))) = Inr b \<and>
               target_size_kb * 1024 < int (length b))"
    by blast+
  show "\<exists>r. fst ?run = Returned r \<and> \<not> metBudget r \<and>
              length (snd ?run) = nat max_iterations \<and>
              save_JPEG L (att_image (last (snd ?run))) (att_quality (last (snd ?run)))
                = Inr (out_bytes r)"
    by (rule export_miss_range[OF op a1 a2 a3])
next
  fix r assume "fst (optimize_for_retail L im) = Returned r"
  from retail_result[OF this]
  show "metBudget r = (int (length (out_bytes r)) < 500 * 1024)" by simp
next
  fix r
  assume "Image_open L image_data = Inr img"
    "fst (optimize_export L image_data target_size_kb max_iterations) = Returned r"
  from export_result[OF this]
  show "metBudget r = (int (length (out_bytes r)) \<le> target_size_kb * 1024)" by simp
qed

theorem budget_miss_is_returned_witness:
  "(\<exists>r. fst (optimize_for_retail (sample_pil (sample_image ''RGB'') rgb_only_encoder)
            (sample_image ''RGB'')) = Returned r \<and> \<not> metBudget r \<and>
         length (snd (optimize_for_retail (sample_pil (sample_image ''RGB'') rgb_only_encoder)
            (sample_image ''RGB''))) = 18 \<and>
         out_bytes r = blob 600000) \<and>
   (\<exists>r. fst (optimize_export (sample_pil (sample_image ''RGB'') rgb_only_encoder)
            (blob 2000) 1 10) = Returned r \<and> \<not> metBudget r \<and>
         length (snd (optimize_export (sample_pil (sample_image ''RGB'') rgb_only_encoder)
            (blob 2000) 1 10)) = 10)"
proof -
  let ?P = "sample_pil (sample_image ''RGB'') rgb_only_encoder"
  let ?I = "sample_image ''RGB''"
  note T = budget_miss_is_returned[of ?P ?I "blob 2000" ?I 1 10]
  have h1: "\<forall>k<18. \<exists>b. save_JPEG ?P (retail_to_rgb ?P ?I) (95 - 5 * int k) = Inr b \<and>
               \<not> int (length b) < 500 * 1024"
    by (simp add: rgb_only_encoder_def)
  have h2: "Image_open ?P (blob 2000) = Inr ?I" by simp
  have h3: "1 * 1024 < int (length (blob 2000)) \<and> (0::int) < 10 \<and>
       (\<forall>k. int k < 10 \<longrightarrow>
          (\<exists>b. save_JPEG ?P ((next_image ?P ^^ Suc k) (export_to_rgb ?P ?I))
                 (max 10 (85 - 5 * (int k + 1))) = Inr b \<and> 1 * 1024 < int (length b)))"
    by (simp add: rgb_only_encoder_def next_image_def resize_def mode_next_image_funpow
          export_to_rgb_def sample_image_def)
  from T h1 obtain r where
    r: "fst (optimize_for_retail ?P ?I) = Returned r" "\<not> metBudget r"
       "length (snd (optimize_for_retail ?P ?I)) = 18"
       "save_JPEG ?P (retail_to_rgb ?P ?I) 10 = Inr (out_bytes r)"
    by blast
  from r(4) have "out_bytes r = blob 600000"
    by (simp add: rgb_only_encoder_def)
  with r have A: "\<exists>r. fst (optimize_for_retail ?P ?I) = Returned r \<and> \<not> metBudget r \<and>
         length (snd (optimize_for_retail ?P ?I)) = 18 \<and> out_bytes r = blob 600000"
    by blast
  from T h2 h3 have B: "\<exists>r. fst (optimize_export ?P (blob 2000) 1 10) = Returned r \<and>
         \<not> metBudget r \<and> length (snd (optimize_export ?P (blob 2000) 1 10)) = nat 10"
    by blast
  from A B show ?thesis by simp
qed

text \<open>
  C1, as stated, fails on \<open>optimize_export\<close>. Its loop runs while
  \<^verbatim>\<open>current_size > target_bytes\<close>, so an encoding of exactly \<open>target_bytes\<close> ends it.
  With a 1 KB target and an encoder that gives 1024 bytes at quality 80 and 900 bytes at
  quality 75, the call returns the 1024-byte buffer, which is not strictly under the
  target, although the next step of the configured range would have been.
\<close>

theorem export_stops_at_exact_target:
  "fst (optimize_export (sample_pil (sample_image ''RGB'') boundary_encoder) (blob 2000) 1 10) =
     Returned \<lparr>out_bytes = blob 1024, out_quality = 80, out_iteration = 1,
        out_image = \<lparr>mode = ''RGB'', width = 114, height = 114, pixels = []\<rparr>,
        metBudget = True\<rparr> \<and>
   \<not> int (length (blob 1024)) < 1 * 1024 \<and>
   save_JPEG (sample_pil (sample_image ''RGB'') boundary_encoder)
     \<lparr>mode = ''RGB'', width = 108, height = 108, pixels = []\<rparr> 75 = Inr (blob 900) \<and>
   int (length (blob 900)) < 1 * 1024"
  by (simp add: boundary_export_run boundary_encoder_def)

text \<open>
  C1, amended. First success wins in both loops: every encoder call before the last one
  succeeded and missed the budget, the returned buffer is the encoding of the last call
  and \<open>quality\<close> is the one used there. In \<open>optimize_for_retail\<close> success means strictly
  under 500 KB: if the encoding at quality \<open>95 - 5 k\<close>, for some \<open>k < 18\<close>, is under 500 KB
  and the encoder does not fail at the qualities tried before it, the call returns a
  buffer under 500 KB with \<open>metBudget\<close> true after at most \<open>k + 1\<close> encoder calls. In
  \<open>optimize_export\<close> success means at most \<open>target_bytes\<close>: if the encoding of step
  \<open>k < max_iterations\<close> has at most \<open>target_bytes\<close> and the encoder does not fail at the
  steps before it, the call returns a buffer of at most \<open>target_bytes\<close> with \<open>metBudget\<close>
  true after at most \<open>k + 1\<close> encoder calls. The witness runs meet the budget at the
  third and at the second call.
\<close>

theorem first_success_wins:
  "(\<forall>att \<in> set (butlast (snd (optimize_for_retail L im))).
      \<exists>b. save_JPEG L (retail_to_rgb L im) (att_quality att) = Inr b \<and>
          \<not> int (length b) < 500 * 1024) \<and>
   (\<forall>r. fst (optimize_for_retail L im) = Returned r \<longrightarrow>
      save_JPEG L (retail_to_rgb L im)
        (att_quality (last (snd (optimize_for_retail L im)))) = Inr (out_bytes r) \<and>
      metBudget r = (int (length (out_bytes r)) < 500 * 1024) \<and>
      (metBudget r \<longrightarrow> out_quality r = att_quality (last (snd (optimize_for_retail L im))))) \<and>
   (\<forall>k b. k < 18 \<and> save_JPEG L (retail_to_rgb L im) (95 - 5 * int k) = Inr b \<and>
          int (length b) < 500 * 1024 \<and>
          (\<forall>j<k. \<exists>c. save_JPEG L (retail_to_rgb L im) (95 - 5 * int j) = Inr c) \<longrightarrow>
      (\<exists>r. fst (optimize_for_retail L im) = Returned r \<and> metBudget r \<and>
           int (length (out_bytes r)) < 500 * 1024 \<and>
           length (snd (optimize_for_retail L im)) \<le> Suc k)) \<and>
   (Image_open L d = Inr img \<longrightarrow>
      (\<forall>att \<in> set (butlast (snd (optimize_export L d t m))).
         \<exists>b. save_JPEG L (att_image att) (att_quality att) = Inr b \<and> t * 1024 < int (length b)) \<and>
      (\<forall>r. fst (optimize_export L d t m) = Returned r \<longrightarrow>
         metBudget r = (int (length (out_bytes r)) \<le> t * 1024) \<and>
         (snd (optimize_export L d t m) \<noteq> [] \<longrightarrow>
            save_JPEG L (att_image (last (snd (optimize_export L d t m))))
              (att_quality (last (snd (optimize_export L d t m)))) = Inr (out_bytes r) \<and>
            out_quality r = att_quality (last (snd (optimize_export L d t m))) \<and>
            out_image r = att_image (last (snd (optimize_export L d t m))))) \<and>
      (\<forall>k b. int k < m \<and>
          save_JPEG L ((next_image L ^^ Suc k) (export_to_rgb L img))
            (max 10 (85 - 5 * (int k + 1))) = Inr b \<and>
          int (length b) \<le> t * 1024 \<and>
          (\<forall>j<k. \<exists>c. save_JPEG L ((next_image L ^^ Suc j) (export_to_rgb L img))
                     (max 10 (85 - 5 * (int j + 1))) = Inr c) \<longrightarrow>
         (\<exists>r. fst (optimize_export L d t m) = Returned r \<and> metBudget r \<and>
              int (length (out_bytes r)) \<le> t * 1024 \<and>
              length (snd (optimize_export L d t m)) \<le> Suc k)))"
proof (intro conjI impI ballI allI)
  fix att assume "att \<in> set (butlast (snd (optimize_for_retail L im)))"
  then show "\<exists>b. save_JPEG L (retail_to_rgb L im) (att_quality att) = Inr b \<and>
          \<not> int (length b) < 500 * 1024"
    by (rule retail_earlier_over)
next
  fix r assume r: "fst (optimize_for_retail L im) = Returned r"
  note res = retail_result[OF r]
  show "save_JPEG L (retail_to_rgb L im)
        (att_quality (last (snd (optimize_for_retail L im)))) = Inr (out_bytes r)"
    using res by simp
  show "metBudget r = (int (length (out_bytes r)) < 500 * 1024)" using res by simp
  show "out_quality r = att_quality (last (snd (optimize_for_retail L im)))" if "metBudget r"
    using res that by simp
next
  fix k b
  assume "k < 18 \<and> save_JPEG L (retail_to_rgb L im) (95 - 5 * int k) = Inr b \<and>
          int (length b) < 500 * 1024 \<and>
          (\<forall>j<k. \<exists>c. save_JPEG L (retail_to_rgb L im) (95 - 5 * int j) = Inr c)"
  then show "\<exists>r. fst (optimize_for_retail L im) = Returned r \<and> metBudget r \<and>
           int (length (out_bytes r)) < 500 * 1024 \<and>
           length (snd (optimize_for_retail L im)) \<le> Suc k"
    using retail_reaches_range[of k L im b] by blast
next
  fix att assume "Image_open L d = Inr img" "att \<in> set (butlast (snd (optimize_export L d t m)))"
  then show "\<exists>b. save_JPEG L (att_image att) (att_quality att) = Inr b \<and> t * 1024 < int (length b)"
    by (rule export_earlier_over)
next
  fix r assume a: "Image_open L d = Inr img" "fst (optimize_export L d t m) = Returned r"
  note res = export_result[OF a]
  show "metBudget r = (int (length (out_bytes r)) \<le> t * 1024)" using res by simp
  show "save_JPEG L (att_image (last (snd (optimize_export L d t m))))
              (att_quality (last (snd (optimize_export L d t m)))) = Inr (out_bytes r)"
    if "snd (optimize_export L d t m) \<noteq> []" using res that by simp
  show "out_quality r = att_quality (last (snd (optimize_export L d t m)))"
    if "snd (optimize_export L d t m) \<noteq> []" using res that by simp
  show "out_image r = att_image (last (snd (optimize_export L d t m)))"
    if "snd (optimize_export L d t m) \<noteq> []" using res that by simp
next
  fix k b
  assume "Image_open L d = Inr img"
    and "int k < m \<and>
          save_JPEG L ((next_image L ^^ Suc k) (export_to_rgb L img))
            (max 10 (85 - 5 * (int k + 1))) = Inr b \<and>
          int (length b) \<le> t * 1024 \<and>
          (\<forall>j<k. \<exists>c. save_JPEG L ((next_image L ^^ Suc j) (export_to_rgb L img))
                     (max 10 (85 - 5 * (int j + 1))) = Inr c)"
  then show "\<exists>r. fst (optimize_export L d t m) = Returned r \<and> metBudget r \<and>
              int (length (out_bytes r)) \<le> t * 1024 \<and>
              length (snd (optimize_export L d t m)) \<le> Suc k"
    using export_reaches_range[of L d img k m b t] by blast
qed

theorem first_success_wins_witness:
  "length (snd (optimize_for_retail (sample_pil (sample_image ''RGB'') linear_encoder)
      (sample_image ''RGB''))) = 3 \<and>
   (\<exists>b. save_JPEG (sample_pil (sample_image ''RGB'') linear_encoder) (sample_image ''RGB'') 90
           = Inr b \<and> \<not> int (length b) < 500 * 1024) \<and>
   (\<exists>r. fst (optimize_for_retail (sample_pil (sample_image ''RGB'') linear_encoder)
            (sample_image ''RGB'')) = Returned r \<and> metBudget r \<and> out_quality r = 85 \<and>
         int (length (out_bytes r)) < 500 * 1024) \<and>
   length (snd (optimize_export (sample_pil (sample_image ''RGB'') linear_encoder)
      (blob 600000) 440 10)) = 2 \<and>
   (\<exists>b. save_JPEG (sample_pil (sample_image ''RGB'') linear_encoder)
           \<lparr>mode = ''RGB'', width = 114, height = 114, pixels = []\<rparr> 80 = Inr b \<and>
        440 * 1024 < int (length b)) \<and>
   (\<exists>r. fst (optimize_export (sample_pil (sample_image ''RGB'') linear_encoder)
            (blob 600000) 440 10) = Returned r \<and> metBudget r \<and> out_quality r = 75 \<and>
         int (length (out_bytes r)) \<le> 440 * 1024)"
proof -
  let ?P = "sample_pil (sample_image ''RGB'') linear_encoder"
  let ?I = "sample_image ''RGB''"
  let ?rl = "snd (optimize_for_retail ?P ?I)"
  let ?el = "snd (optimize_export ?P (blob 600000) 440 10)"
  note T = first_success_wins[of ?P ?I "blob 600000" ?I 440 10]
  have rgb: "retail_to_rgb ?P ?I = ?I" by (simp add: retail_to_rgb_def sample_image_def)
  have op: "Image_open ?P (blob 600000) = Inr ?I" by simp
  have r1: "\<lparr>att_image = ?I, att_quality = 90\<rparr> \<in> set (butlast ?rl)"
    by (simp add: linear_retail_run)
  have e1: "\<lparr>att_image = \<lparr>mode = ''RGB'', width = 114, height = 114, pixels = []\<rparr>,
              att_quality = 80\<rparr> \<in> set (butlast ?el)"
    by (simp add: linear_export_run)
  from T r1 have A: "\<exists>b. save_JPEG ?P ?I 90 = Inr b \<and> \<not> int (length b) < 500 * 1024"
    unfolding rgb by fastforce
  from T op e1 have B: "\<exists>b. save_JPEG ?P \<lparr>mode = ''RGB'', width = 114, height = 114, pixels = []\<rparr> 80
           = Inr b \<and> 440 * 1024 < int (length b)"
    by fastforce
  have C: "fst (optimize_for_retail ?P ?I) =
      Returned \<lparr>out_bytes = blob 510000, out_quality = 85, out_iteration = 3,
        out_image = ?I, metBudget = True\<rparr>" "length ?rl = 3"
    by (simp_all add: linear_retail_run)
  have D: "fst (optimize_export ?P (blob 600000) 440 10) =
      Returned \<lparr>out_bytes = blob 450000, out_quality = 75, out_iteration = 2,
        out_image = \<lparr>mode = ''RGB'', width = 108, height = 108, pixels = []\<rparr>,
        metBudget = True\<rparr>" "length ?el = 2"
    by (simp_all add: linear_export_run)
  have h: "(2::nat) < 18 \<and>
      save_JPEG ?P (retail_to_rgb ?P ?I) (95 - 5 * int 2) = Inr (blob 510000) \<and>
      int (length (blob 510000)) < 500 * 1024 \<and>
      (\<forall>j<2. \<exists>c. save_JPEG ?P (retail_to_rgb ?P ?I) (95 - 5 * int j) = Inr c)"
    by (simp add: linear_encoder_def)
  from T h have E: "\<exists>r. fst (optimize_for_retail ?P ?I) = Returned r \<and> metBudget r \<and>
      int (length (out_bytes r)) < 500 * 1024 \<and> length ?rl \<le> Suc 2"
    by blast
  have h': "int 1 < 10 \<and>
      save_JPEG ?P ((next_image ?P ^^ Suc 1) (export_to_rgb ?P ?I))
        (max 10 (85 - 5 * (int 1 + 1))) = Inr (blob 450000) \<and>
      int (length (blob 450000)) \<le> 440 * 1024 \<and>
      (\<forall>j<1. \<exists>c. save_JPEG ?P ((next_image ?P ^^ Suc j) (export_to_rgb ?P ?I))
                 (max 10 (85 - 5 * (int j + 1))) = Inr c)"
    by (simp add: linear_encoder_def)
  from T op h' have F: "\<exists>r. fst (optimize_export ?P (blob 600000) 440 10) = Returned r \<and>
      metBudget r \<and> int (length (out_bytes r)) \<le> 440 * 1024 \<and> length ?el \<le> Suc 1"
    by blast
  from A B C D E F show ?thesis by simp
qed

text \<open>
  C6, as stated, fails on a source smaller than the floor. The loop sets each dimension
  to \<^verbatim>\<open>max(100, int(dim * 0.95))\<close>, so a 50 by 50 source is resampled up to 100 by 100
  by the first iteration and stays there: its dimensions grow and never shrink.
\<close>

theorem export_enlarges_small_source:
  "map (\<lambda>a. (width (att_image a), height (att_image a)))
     (snd (optimize_export (sample_pil small_image rgb_only_encoder) (blob 2000) 1 2)) =
     [(100, 100), (100, 100)] \<and>
   width small_image = 50 \<and> height small_image = 50"
proof -
  have "map (\<lambda>a. (width (att_image a), height (att_image a)))
     (snd (optimize_export (sample_pil small_image rgb_only_encoder) (blob 2000) 1 2)) =
     [(100, 100), (100, 100)]"
    by (simp add: small_source_export_run)
  moreover have "width small_image = 50 \<and> height small_image = 50"
    by (simp add: small_image_def)
  ultimately show ?thesis by blast
qed

text \<open>
  C6, amended. In \<open>optimize_export\<close> the first encoder call is made at quality 80 on the
  working image resampled to \<open>max 100 \<lfloor>19 w / 20\<rfloor>\<close> by \<open>max 100 \<lfloor>19 h / 20\<rfloor>\<close>, where \<open>w\<close>
  and \<open>h\<close> are the source's width and height, and every later call is made at quality
  \<open>max 10 (q - 5)\<close> on the previous call's image resampled by the same rule. So a
  dimension above 100 strictly shrinks, a dimension of 100 stays at 100 (a source
  dimension under 100 is raised to 100 by the first iteration), and from the first call
  on no dimension is below 100 and no quality below 10. When the input and each of the
  \<open>max_iterations\<close> encodings of the loop are over \<open>target_bytes\<close>, the loop makes
  exactly \<open>max_iterations\<close> calls and ends with \<open>metBudget\<close> false. The witness is the
  120 by 120 source: 114, 108, 102, then 100 for the remaining seven of ten calls.
\<close>

theorem export_rescale_floors:
  "Image_open L d = Inr img \<longrightarrow>
     (snd (optimize_export L d t m) \<noteq> [] \<longrightarrow>
        att_quality (snd (optimize_export L d t m) ! 0) = 80 \<and>
        width (att_image (snd (optimize_export L d t m) ! 0)) = max 100 (width img * 19 div 20) \<and>
        height (att_image (snd (optimize_export L d t m) ! 0)) = max 100 (height img * 19 div 20) \<and>
        att_image (snd (optimize_export L d t m) ! 0) =
          resize L (export_to_rgb L img)
            (max 100 (width img * 19 div 20)) (max 100 (height img * 19 div 20))) \<and>
     (\<forall>k. Suc k < length (snd (optimize_export L d t m)) \<longrightarrow>
        att_quality (snd (optimize_export L d t m) ! Suc k) =
          max 10 (att_quality (snd (optimize_export L d t m) ! k) - 5) \<and>
        width (att_image (snd (optimize_export L d t m) ! Suc k)) =
          max 100 (width (att_image (snd (optimize_export L d t m) ! k)) * 19 div 20) \<and>
        height (att_image (snd (optimize_export L d t m) ! Suc k)) =
          max 100 (height (att_image (snd (optimize_export L d t m) ! k)) * 19 div 20) \<and>
        att_image (snd (optimize_export L d t m) ! Suc k) =
          resize L (att_image (snd (optimize_export L d t m) ! k))
            (max 100 (width (att_image (snd (optimize_export L d t m) ! k)) * 19 div 20))
            (max 100 (height (att_image (snd (optimize_export L d t m) ! k)) * 19 div 20)) \<and>
        (100 < width (att_image (snd (optimize_export L d t m) ! k)) \<longrightarrow>
           width (att_image (snd (optimize_export L d t m) ! Suc k))
             < width (att_image (snd (optimize_export L d t m) ! k))) \<and>
        (100 < height (att_image (snd (optimize_export L d t m) ! k)) \<longrightarrow>
           height (att_image (snd (optimize_export L d t m) ! Suc k))
             < height (att_image (snd (optimize_export L d t m) ! k))) \<and>
        (width (att_image (snd (optimize_export L d t m) ! k)) = 100 \<longrightarrow>
           width (att_image (snd (optimize_export L d t m) ! Suc k)) = 100) \<and>
        (height (att_image (snd (optimize_export L d t m) ! k)) = 100 \<longrightarrow>
           height (att_image (snd (optimize_export L d t m) ! Suc k)) = 100)) \<and>
     (\<forall>k < length (snd (optimize_export L d t m)).
        att_quality (snd (optimize_export L d t m) ! k) = max 10 (85 - 5 * (int k + 1)) \<and>
        10 \<le> att_quality (snd (optimize_export L d t m) ! k) \<and>
        100 \<le> width (att_image (snd (optimize_export L d t m) ! k)) \<and>
        100 \<le> height (att_image (snd (optimize_export L d t m) ! k))) \<and>
     (t * 1024 < int (length d) \<and>
      (\<forall>k. int k < m \<longrightarrow>
         (\<exists>b. save_JPEG L ((next_image L ^^ Suc k) (export_to_rgb L img))
                (max 10 (85 - 5 * (int k + 1))) = Inr b \<and> t * 1024 < int (length b))) \<longrightarrow>
        length (snd (optimize_export L d t m)) = nat m \<and>
        (\<exists>r. fst (optimize_export L d t m) = Returned r \<and> \<not> metBudget r))"
proof (intro impI conjI allI)
  let ?log = "snd (optimize_export L d t m)"
  assume op: "Image_open L d = Inr img" and ne: "?log \<noteq> []"
  note first = export_first_call[OF op ne]
  show "att_quality (?log ! 0) = 80" using first by simp
  show "width (att_image (?log ! 0)) = max 100 (width img * 19 div 20)"
    using first by (simp add: next_image_size(1,2))
  show "height (att_image (?log ! 0)) = max 100 (height img * 19 div 20)"
    using first by (simp add: next_image_size(1,2))
  show "att_image (?log ! 0) =
          resize L (export_to_rgb L img)
            (max 100 (width img * 19 div 20)) (max 100 (height img * 19 div 20))"
    using first by (simp add: next_image_size(3))
next
  fix k
  let ?log = "snd (optimize_export L d t m)"
  assume op: "Image_open L d = Inr img" and k: "Suc k < length ?log"
  note step = export_next_call[OF op k]
  show "att_quality (?log ! Suc k) = max 10 (att_quality (?log ! k) - 5)" using step by simp
  show w: "width (att_image (?log ! Suc k)) = max 100 (width (att_image (?log ! k)) * 19 div 20)"
    using step by (simp add: next_image_size(1,2))
  show h: "height (att_image (?log ! Suc k)) = max 100 (height (att_image (?log ! k)) * 19 div 20)"
    using step by (simp add: next_image_size(1,2))
  show "att_image (?log ! Suc k) =
          resize L (att_image (?log ! k))
            (max 100 (width (att_image (?log ! k)) * 19 div 20))
            (max 100 (height (att_image (?log ! k)) * 19 div 20))"
    using step by (simp add: next_image_size(3))
  show "width (att_image (?log ! Suc k)) < width (att_image (?log ! k))"
    if "100 < width (att_image (?log ! k))"
    unfolding w using that by (rule shrink_above_floor)
  show "height (att_image (?log ! Suc k)) < height (att_image (?log ! k))"
    if "100 < height (att_image (?log ! k))"
    unfolding h using that by (rule shrink_above_floor)
  show "width (att_image (?log ! Suc k)) = 100" if "width (att_image (?log ! k)) = 100"
    unfolding w that by (rule stay_at_floor)
  show "height (att_image (?log ! Suc k)) = 100" if "height (att_image (?log ! k)) = 100"
    unfolding h that by (rule stay_at_floor)
next
  fix k
  let ?log = "snd (optimize_export L d t m)"
  assume op: "Image_open L d = Inr img" and k: "k < length ?log"
  note at = export_attempt[OF op k]
  show "att_quality (?log ! k) = max 10 (85 - 5 * (int k + 1))" using at by simp
  show "10 \<le> att_quality (?log ! k)" using at by simp
  show "100 \<le> width (att_image (?log ! k))" using at by (simp add: next_image_size(1,2))
  show "100 \<le> height (att_image (?log ! k))" using at by (simp add: next_image_size(1,2))
next
  assume op: "Image_open L d = Inr img"
    and miss: "t * 1024 < int (length d) \<and>
      (\<forall>k. int k < m \<longrightarrow>
         (\<exists>b. save_JPEG L ((next_image L ^^ Suc k) (export_to_rgb L img))
                (max 10 (85 - 5 * (int k + 1))) = Inr b \<and> t * 1024 < int (length b)))"
  from miss have m1: "t * 1024 < int (length d)"
    and m2: "\<forall>k. int k < m \<longrightarrow>
         (\<exists>b. save_JPEG L ((next_image L ^^ Suc k) (export_to_rgb L img))
                (max 10 (85 - 5 * (int k + 1))) = Inr b \<and> t * 1024 < int (length b))"
    by blast+
  note res = export_miss_calls[OF op m1 m2]
  show "length (snd (optimize_export L d t m)) = nat m" using res by simp
  show "\<exists>r. fst (optimize_export L d t m) = Returned r \<and> \<not> metBudget r" using res by simp
qed

theorem export_rescale_floors_witness:
  "map (\<lambda>a. (width (att_image a), height (att_image a), att_quality a))
     (snd (optimize_export (sample_pil (sample_image ''RGB'') rgb_only_encoder) (blob 2000) 1 10)) =
     [(114, 114, 80), (108, 108, 75), (102, 102, 70), (100, 100, 65), (100, 100, 60),
      (100, 100, 55), (100, 100, 50), (100, 100, 45), (100, 100, 40), (100, 100, 35)] \<and>
   width (att_image (snd (optimize_export (sample_pil (sample_image ''RGB'') rgb_only_encoder)
      (blob 2000) 1 10) ! 1))
     < width (att_image (snd (optimize_export (sample_pil (sample_image ''RGB'') rgb_only_encoder)
      (blob 2000) 1 10) ! 0)) \<and>
   length (snd (optimize_export (sample_pil (sample_image ''RGB'') rgb_only_encoder)
      (blob 2000) 1 10)) = 10 \<and>
   (\<exists>r. fst (optimize_export (sample_pil (sample_image ''RGB'') rgb_only_encoder)
      (blob 2000) 1 10) = Returned r \<and> \<not> metBudget r)"
proof -
  let ?P = "sample_pil (sample_image ''RGB'') rgb_only_encoder"
  let ?log = "snd (optimize_export ?P (blob 2000) 1 10)"
  note T = export_rescale_floors[of ?P "blob 2000" "sample_image ''RGB''" 1 10]
  have h1: "Image_open ?P (blob 2000) = Inr (sample_image ''RGB'')" by simp
  have h2: "1 * 1024 < int (length (blob 2000)) \<and>
      (\<forall>k. int k < 10 \<longrightarrow>
         (\<exists>b. save_JPEG ?P ((next_image ?P ^^ Suc k) (export_to_rgb ?P (sample_image ''RGB'')))
                (max 10 (85 - 5 * (int k + 1))) = Inr b \<and> 1 * 1024 < int (length b)))"
    by (simp add: rgb_only_encoder_def next_image_def resize_def mode_next_image_funpow
          export_to_rgb_def sample_image_def)
  from T h1 h2 have A: "length ?log = nat 10 \<and>
     (\<exists>r. fst (optimize_export ?P (blob 2000) 1 10) = Returned r \<and> \<not> metBudget r)"
    by blast
  have h3: "Suc 0 < length ?log" "100 < width (att_image (?log ! 0))"
    by (simp_all add: rgb_only_export_run)
  from T h1 h3 have B: "width (att_image (?log ! Suc 0)) < width (att_image (?log ! 0))"
    by blast
  have C: "map (\<lambda>a. (width (att_image a), height (att_image a), att_quality a)) ?log =
     [(114, 114, 80), (108, 108, 75), (102, 102, 70), (100, 100, 65), (100, 100, 60),
      (100, 100, 55), (100, 100, 50), (100, 100, 45), (100, 100, 40), (100, 100, 35)]"
    by (simp add: rgb_only_export_run)
  from A B C show ?thesis by simp
qed

text \<open>
  C4 fails on the code. \<open>recursive_optimize_export\<close> tests \<^verbatim>\<open>quality >= QUALITY_MIN\<close>
  and only then lowers \<open>quality\<close> by \<open>QUALITY_STEP\<close> and saves. On a 600000-byte export
  that no quality brings to 500 KB it saves at 90, 85, 80, 75, 70, 65 and 60: the last
  encoding, the one left on disk, is made at quality 60, below \<open>QUALITY_MIN\<close>, and none
  is made at \<open>QUALITY_START\<close>.
\<close>

theorem module_c_encodes_below_quality_min:
  "map att_quality
     (saves (recursive_optimize_export (sample_pil (sample_image ''RGB'') rgb_only_encoder)
        ''out.jpg'' big_file)) = [90, 85, 80, 75, 70, 65, 60] \<and>
   returned (recursive_optimize_export (sample_pil (sample_image ''RGB'') rgb_only_encoder)
        ''out.jpg'' big_file) = Some ''out.jpg'' \<and>
   att_quality (last (saves (recursive_optimize_export
        (sample_pil (sample_image ''RGB'') rgb_only_encoder) ''out.jpg'' big_file))) = 60 \<and>
   QUALITY_MIN = 65 \<and> QUALITY_START = 95"
  by (simp add: heavy_file_run QUALITY_MIN_def QUALITY_START_def)

text \<open>
  C5, as stated, fails on \<open>optimize_export\<close>. A 100-byte input against a 1 KB target
  is returned as it came, after no encoder call at all: the function compares
  \<^verbatim>\<open>len(image_data)\<close>, the size of the input container, with the target.
\<close>

theorem export_small_input_not_encoded:
  "optimize_export (sample_pil (sample_image ''RGB'') rgb_only_encoder) (blob 100) 1 10 =
     (Returned \<lparr>out_bytes = blob 100, out_quality = 85, out_iteration = 0,
        out_image = sample_image ''RGB'', metBudget = True\<rparr>, [])"
  by (rule small_export_run)

text \<open>
  C5, amended. \<open>optimize_export\<close>, when the input decodes and has at most \<open>target_bytes\<close>
  bytes, returns the input bytes unchanged, with no encoder call, \<open>iteration\<close> 0 and
  \<open>quality\<close> at its start value 85; \<open>recursive_optimize_export\<close>, when the file has at
  most 500 KB, returns the path with the file untouched and no encoder call. Only
  \<open>optimize_for_retail\<close>, which receives a decoded image, always encodes: its first call
  is at quality 95, and when that encoding is under 500 KB it is returned, at quality
  95 with the iteration counter at 1.
\<close>

theorem small_input_returned_as_is:
  "(Image_open L d = Inr img \<and> int (length d) \<le> t * 1024 \<longrightarrow>
      optimize_export L d t m =
        (Returned \<lparr>out_bytes = d, out_quality = 85, out_iteration = 0,
           out_image = export_to_rgb L img, metBudget = True\<rparr>, [])) \<and>
   (fs p = Some c \<and> int (length c) \<le> 500 * 1024 \<longrightarrow>
      recursive_optimize_export L p fs = \<lparr>returned = Some p, disk = fs, saves = []\<rparr>) \<and>
   snd (optimize_for_retail L im) \<noteq> [] \<and>
   snd (optimize_for_retail L im) ! 0 = \<lparr>att_image = retail_to_rgb L im, att_quality = 95\<rparr> \<and>
   (save_JPEG L (retail_to_rgb L im) 95 = Inr b \<and> int (length b) < 500 * 1024 \<longrightarrow>
      optimize_for_retail L im =
        (Returned \<lparr>out_bytes = b, out_quality = 95, out_iteration = 1,
           out_image = retail_to_rgb L im, metBudget = True\<rparr>,
         [\<lparr>att_image = retail_to_rgb L im, att_quality = 95\<rparr>]))"
  using export_small_input[of L d img t m] module_c_small_file[of fs p c L]
    retail_first_call[of L im] retail_first_success[of L im b]
  by blast

theorem small_input_returned_as_is_witness:
  "optimize_export (sample_pil (sample_image ''RGB'') boundary_encoder) (blob 100) 1 10 =
     (Returned \<lparr>out_bytes = blob 100, out_quality = 85, out_iteration = 0,
        out_image = sample_image ''RGB'', metBudget = True\<rparr>, []) \<and>
   recursive_optimize_export (sample_pil (sample_image ''RGB'') boundary_encoder)
     ''logo.png'' big_file = \<lparr>returned = Some ''logo.png'', disk = big_file, saves = []\<rparr> \<and>
   optimize_for_retail (sample_pil (sample_image ''RGB'') boundary_encoder) (sample_image ''RGB'') =
     (Returned \<lparr>out_bytes = blob 900, out_quality = 95, out_iteration = 1,
        out_image = sample_image ''RGB'', metBudget = True\<rparr>,
      [\<lparr>att_image = sample_image ''RGB'', att_quality = 95\<rparr>])"
proof -
  let ?P = "sample_pil (sample_image ''RGB'') boundary_encoder"
  let ?I = "sample_image ''RGB''"
  note T = small_input_returned_as_is
             [where L="?P" and d="blob 100" and img="?I" and t=1 and m=10 and fs=big_file
                and p="''logo.png''" and c="blob 100" and im="?I" and b="blob 900"]
  have rgb: "retail_to_rgb ?P ?I = ?I" "export_to_rgb ?P ?I = ?I"
    by (simp_all add: retail_to_rgb_def export_to_rgb_def sample_image_def)
  have h1: "Image_open ?P (blob 100) = Inr ?I \<and> int (length (blob 100)) \<le> 1 * 1024" by simp
  have h2: "big_file ''logo.png'' = Some (blob 100) \<and> int (length (blob 100)) \<le> 500 * 1024"
    by simp
  have h3: "save_JPEG ?P (retail_to_rgb ?P ?I) 95 = Inr (blob 900) \<and>
            int (length (blob 900)) < 500 * 1024"
    by (simp add: boundary_encoder_def)
  from T h1 h2 h3 show ?thesis unfolding rgb by blast
qed

text \<open>
  C8, as stated, fails on \<open>recursive_optimize_export\<close>, which saves every encoding to
  \<^verbatim>\<open>file_path\<close> itself. After the call on a 600000-byte export the caller's file holds
  the 510000 bytes of the encoding at quality 85.
\<close>

theorem export_overwrites_source_file:
  "disk (recursive_optimize_export (sample_pil (sample_image ''RGB'') linear_encoder)
      ''out.jpg'' big_file) ''out.jpg'' = Some (blob 510000) \<and>
   big_file ''out.jpg'' = Some (blob 600000)"
  by (simp add: linear_file_run)

text \<open>
  C8, amended. \<open>optimize_for_retail\<close> leaves the caller's image object, and every other
  image object that existed before the call, as it was, and returns what the function of
  the image value returns: where it converts, it allocates a new object and encodes
  that; an RGB image is encoded from the caller's object itself and nothing is
  allocated. \<open>recursive_optimize_export\<close> changes no file but the one it is given. It
  leaves that one untouched when it does not exist (returning \<^verbatim>\<open>None\<close>) or already has
  at most 500 KB; otherwise it re-encodes in place, and when it returns the path after
  at least one save the file holds the output of the last encoder call.
\<close>

theorem caller_input_frame:
  "(objects s a = Some im \<and> a < next_free s \<longrightarrow>
      (\<exists>s'. optimize_for_retail_at L a s = Some (optimize_for_retail L im, s') \<and>
            objects s' a = Some im \<and>
            (\<forall>b. b < next_free s \<longrightarrow> objects s' b = objects s b) \<and>
            (mode im = ''RGB'' \<longrightarrow> s' = s))) \<and>
   (\<forall>p'. p' \<noteq> p \<longrightarrow> disk (recursive_optimize_export L p fs) p' = fs p') \<and>
   (fs p = None \<longrightarrow>
      recursive_optimize_export L p fs = \<lparr>returned = None, disk = fs, saves = []\<rparr>) \<and>
   (\<forall>c. fs p = Some c \<and> int (length c) \<le> 500 * 1024 \<longrightarrow>
      recursive_optimize_export L p fs = \<lparr>returned = Some p, disk = fs, saves = []\<rparr>) \<and>
   (returned (recursive_optimize_export L p fs) \<noteq> None \<and>
    saves (recursive_optimize_export L p fs) \<noteq> [] \<longrightarrow>
      (\<exists>b. save_JPEG L (att_image (last (saves (recursive_optimize_export L p fs))))
              (att_quality (last (saves (recursive_optimize_export L p fs)))) = Inr b \<and>
           disk (recursive_optimize_export L p fs) p = Some b))"
proof -
  have A: "objects s a = Some im \<and> a < next_free s \<longrightarrow>
      (\<exists>s'. optimize_for_retail_at L a s = Some (optimize_for_retail L im, s') \<and>
            objects s' a = Some im \<and>
            (\<forall>b. b < next_free s \<longrightarrow> objects s' b = objects s b) \<and>
            (mode im = ''RGB'' \<longrightarrow> s' = s))"
    using optimize_for_retail_at_frame[of s a im L] by blast
  have B: "(\<forall>p'. p' \<noteq> p \<longrightarrow> disk (recursive_optimize_export L p fs) p' = fs p') \<and>
   (fs p = None \<longrightarrow>
      recursive_optimize_export L p fs = \<lparr>returned = None, disk = fs, saves = []\<rparr>) \<and>
   (\<forall>c. fs p = Some c \<and> int (length c) \<le> 500 * 1024 \<longrightarrow>
      recursive_optimize_export L p fs = \<lparr>returned = Some p, disk = fs, saves = []\<rparr>) \<and>
   (returned (recursive_optimize_export L p fs) \<noteq> None \<and>
    saves (recursive_optimize_export L p fs) \<noteq> [] \<longrightarrow>
      (\<exists>b. save_JPEG L (att_image (last (saves (recursive_optimize_export L p fs))))
              (att_quality (last (saves (recursive_optimize_export L p fs)))) = Inr b \<and>
           disk (recursive_optimize_export L p fs) p = Some b))"
    using module_c_frame[of _ p L fs] module_c_missing_file[of fs p L]
      module_c_small_file[of fs p _ L] module_c_overwrites[of L p fs]
    by blast
  from A B show ?thesis by (rule conjI)
qed

theorem caller_input_frame_witness:
  "(\<exists>s'. optimize_for_retail_at (sample_pil (sample_image ''RGB'') linear_encoder) 0 sample_store =
          Some (optimize_for_retail (sample_pil (sample_image ''RGB'') linear_encoder)
                  (sample_image ''RGBA''), s') \<and>
        objects s' 0 = Some (sample_image ''RGBA'')) \<and>
   disk (recursive_optimize_export (sample_pil (sample_image ''RGB'') linear_encoder)
      ''out.jpg'' big_file) ''logo.png'' = Some (blob 100) \<and>
   disk (recursive_optimize_export (sample_pil (sample_image ''RGB'') linear_encoder)
      ''out.jpg'' big_file) ''out.jpg'' = Some (blob 510000) \<and>
   save_JPEG (sample_pil (sample_image ''RGB'') linear_encoder) (sample_image ''RGB'') 85
     = Inr (blob 510000) \<and>
   recursive_optimize_export (sample_pil (sample_image ''RGB'') linear_encoder)
      ''logo.png'' big_file = \<lparr>returned = Some ''logo.png'', disk = big_file, saves = []\<rparr>"
proof -
  let ?P = "sample_pil (sample_image ''RGB'') linear_encoder"
  let ?run = "recursive_optimize_export ?P ''out.jpg'' big_file"
  note T = caller_input_frame[of sample_store 0 "sample_image ''RGBA''" ?P "''out.jpg''" big_file]
  note T' = caller_input_frame[of sample_store 0 "sample_image ''RGBA''" ?P "''logo.png''" big_file]
  have h0: "objects sample_store 0 = Some (sample_image ''RGBA'') \<and> 0 < next_free sample_store"
    by (simp add: sample_store_simps)
  from T h0 have Z: "\<exists>s'. optimize_for_retail_at ?P 0 sample_store =
          Some (optimize_for_retail ?P (sample_image ''RGBA''), s') \<and>
        objects s' 0 = Some (sample_image ''RGBA'')"
    by blast
  have h1: "''logo.png'' \<noteq> ''out.jpg''" by simp
  from T h1 have A: "disk ?run ''logo.png'' = Some (blob 100)" by simp
  have h2: "returned ?run \<noteq> None \<and> saves ?run \<noteq> []" by (simp add: linear_file_run)
  from T h2 obtain b where
    b: "save_JPEG ?P (att_image (last (saves ?run))) (att_quality (last (saves ?run))) = Inr b"
       "disk ?run ''out.jpg'' = Some b"
    by blast
  from b(1) have "b = blob 510000" by (simp add: linear_file_run linear_encoder_def)
  with b have B: "disk ?run ''out.jpg'' = Some (blob 510000)" by simp
  have C: "save_JPEG ?P (sample_image ''RGB'') 85 = Inr (blob 510000)"
    by (simp add: linear_encoder_def)
  have h3: "big_file ''logo.png'' = Some (blob 100) \<and> int (length (blob 100)) \<le> 500 * 1024"
    by simp
  from T' h3 have D: "recursive_optimize_export ?P ''logo.png'' big_file =
      \<lparr>returned = Some ''logo.png'', disk = big_file, saves = []\<rparr>"
    by blast
  from A B C D Z show ?thesis by blast
qed

text \<open>
  C9, as stated, fails on \<open>recursive_optimize_export\<close>, whose \<^verbatim>\<open>except Exception\<close> logs
  the failure and returns \<^verbatim>\<open>None\<close>. With an encoder that raises at quality 75 the call
  saves at 90, 85 and 80, fails at 75 and returns \<^verbatim>\<open>None\<close> instead of raising.
\<close>

theorem export_swallows_codec_error:
  "returned (recursive_optimize_export (sample_pil (sample_image ''RGB'') late_failing_encoder)
      ''out.jpg'' big_file) = None \<and>
   map att_quality (saves (recursive_optimize_export
      (sample_pil (sample_image ''RGB'') late_failing_encoder) ''out.jpg'' big_file))
     = [90, 85, 80, 75] \<and>
   save_JPEG (sample_pil (sample_image ''RGB'') late_failing_encoder) (sample_image ''RGB'') 75
     = Inl ''encoder error''"
  by (simp add: late_failing_file_run late_failing_encoder_def)

text \<open>
  C9, amended. In all three functions a failing encoder call is the last one: every call
  before the last succeeded, so nothing is retried at other parameters. In
  \<open>optimize_for_retail\<close> and \<open>optimize_export\<close> the failure of the last encoder call, or
  of the decoding of the input, leaves the function as an exception carrying the
  codec's message behind the function's prefix. In \<open>recursive_optimize_export\<close> the
  failure of the decoding or of the last encoder call makes the function return
  \<^verbatim>\<open>None\<close>.
\<close>

theorem codec_failures_end_the_call:
  "(\<forall>att \<in> set (butlast (snd (optimize_for_retail L im))).
      \<exists>b. save_JPEG L (retail_to_rgb L im) (att_quality att) = Inr b) \<and>
   (\<forall>e. save_JPEG L (retail_to_rgb L im)
          (att_quality (last (snd (optimize_for_retail L im)))) = Inl e \<longrightarrow>
      fst (optimize_for_retail L im) = Raised (''Error in optimize_for_retail: '' @ e)) \<and>
   (\<forall>e. Image_open L d = Inl e \<longrightarrow>
      optimize_export L d t m = (Raised (''Error optimizing export: '' @ e), [])) \<and>
   (Image_open L d = Inr img \<longrightarrow>
      (\<forall>att \<in> set (butlast (snd (optimize_export L d t m))).
         \<exists>b. save_JPEG L (att_image att) (att_quality att) = Inr b) \<and>
      (\<forall>e. snd (optimize_export L d t m) \<noteq> [] \<and>
           save_JPEG L (att_image (last (snd (optimize_export L d t m))))
             (att_quality (last (snd (optimize_export L d t m)))) = Inl e \<longrightarrow>
         fst (optimize_export L d t m) = Raised (''Error optimizing export: '' @ e))) \<and>
   (\<forall>c e. fs p = Some c \<and> 500 * 1024 < int (length c) \<and> Image_open L c = Inl e \<longrightarrow>
      returned (recursive_optimize_export L p fs) = None \<and>
      saves (recursive_optimize_export L p fs) = []) \<and>
   (\<forall>att \<in> set (butlast (saves (recursive_optimize_export L p fs))).
      \<exists>b. save_JPEG L (att_image att) (att_quality att) = Inr b) \<and>
   (\<forall>e. saves (recursive_optimize_export L p fs) \<noteq> [] \<and>
        save_JPEG L (att_image (last (saves (recursive_optimize_export L p fs))))
          (att_quality (last (saves (recursive_optimize_export L p fs)))) = Inl e \<longrightarrow>
      returned (recursive_optimize_export L p fs) = None)"
proof (intro conjI impI ballI allI)
  fix att assume "att \<in> set (butlast (snd (optimize_for_retail L im)))"
  then show "\<exists>b. save_JPEG L (retail_to_rgb L im) (att_quality att) = Inr b"
    by (rule retail_earlier_saved)
next
  fix e assume "save_JPEG L (retail_to_rgb L im)
          (att_quality (last (snd (optimize_for_retail L im)))) = Inl e"
  then show "fst (optimize_for_retail L im) = Raised (''Error in optimize_for_retail: '' @ e)"
    by (rule retail_failed_save)
next
  fix e assume "Image_open L d = Inl e"
  then show "optimize_export L d t m = (Raised (''Error optimizing export: '' @ e), [])"
    by (rule optimize_export_undecoded)
next
  fix att assume "Image_open L d = Inr img" "att \<in> set (butlast (snd (optimize_export L d t m)))"
  from export_earlier_over[OF this]
  show "\<exists>b. save_JPEG L (att_image att) (att_quality att) = Inr b" by blast
next
  fix e assume op: "Image_open L d = Inr img"
    and a: "snd (optimize_export L d t m) \<noteq> [] \<and>
           save_JPEG L (att_image (last (snd (optimize_export L d t m))))
             (att_quality (last (snd (optimize_export L d t m)))) = Inl e"
  from a show "fst (optimize_export L d t m) = Raised (''Error optimizing export: '' @ e)"
    using export_failed_save[OF op] by blast
next
  fix c e assume a: "fs p = Some c \<and> 500 * 1024 < int (length c) \<and> Image_open L c = Inl e"
  then have "recursive_optimize_export L p fs = \<lparr>returned = None, disk = fs, saves = []\<rparr>"
    using module_c_undecoded[of fs p c L e] by blast
  then show "returned (recursive_optimize_export L p fs) = None"
    and "saves (recursive_optimize_export L p fs) = []" by simp_all
next
  fix att assume "att \<in> set (butlast (saves (recursive_optimize_export L p fs)))"
  from module_c_earlier_saved[OF this]
  show "\<exists>b. save_JPEG L (att_image att) (att_quality att) = Inr b" by blast
next
  fix e assume "saves (recursive_optimize_export L p fs) \<noteq> [] \<and>
        save_JPEG L (att_image (last (saves (recursive_optimize_export L p fs))))
          (att_quality (last (saves (recursive_optimize_export L p fs)))) = Inl e"
  then show "returned (recursive_optimize_export L p fs) = None"
    using module_c_failed_save[of L p fs e] by blast
qed

theorem codec_failures_end_the_call_witness:
  "optimize_for_retail (sample_pil (sample_image ''RGB'') late_failing_encoder)
      (sample_image ''RGB'') =
     (Raised ''Error in optimize_for_retail: encoder error'',
      map (\<lambda>q. \<lparr>att_image = sample_image ''RGB'', att_quality = q\<rparr>) [95, 90, 85, 80, 75]) \<and>
   fst (optimize_export (sample_pil (sample_image ''RGB'') late_failing_encoder) (blob 2000) 1 10)
     = Raised ''Error optimizing export: encoder error'' \<and>
   length (snd (optimize_export (sample_pil (sample_image ''RGB'') late_failing_encoder)
     (blob 2000) 1 10)) = 2 \<and>
   returned (recursive_optimize_export (sample_pil (sample_image ''RGB'') late_failing_encoder)
      ''out.jpg'' big_file) = None \<and>
   length (saves (recursive_optimize_export (sample_pil (sample_image ''RGB'') late_failing_encoder)
      ''out.jpg'' big_file)) = 4"
proof -
  let ?P = "sample_pil (sample_image ''RGB'') late_failing_encoder"
  let ?I = "sample_image ''RGB''"
  note T = codec_failures_end_the_call[of ?P ?I "blob 2000" 1 10 ?I big_file "''out.jpg''"]
  have rgb: "retail_to_rgb ?P ?I = ?I" by (simp add: retail_to_rgb_def sample_image_def)
  have h1: "save_JPEG ?P (retail_to_rgb ?P ?I)
          (att_quality (last (snd (optimize_for_retail ?P ?I)))) = Inl ''encoder error''"
    by (simp add: late_failing_retail_run late_failing_encoder_def)
  from T h1 have A: "fst (optimize_for_retail ?P ?I) =
      Raised (''Error in optimize_for_retail: '' @ ''encoder error'')" by blast
  have h2: "Image_open ?P (blob 2000) = Inr ?I" by simp
  have h3: "snd (optimize_export ?P (blob 2000) 1 10) \<noteq> [] \<and>
           save_JPEG ?P (att_image (last (snd (optimize_export ?P (blob 2000) 1 10))))
             (att_quality (last (snd (optimize_export ?P (blob 2000) 1 10)))) = Inl ''encoder error''"
    by (simp add: late_failing_export_run late_failing_encoder_def)
  from T h2 h3 have B: "fst (optimize_export ?P (blob 2000) 1 10) =
      Raised (''Error optimizing export: '' @ ''encoder error'')" by blast
  have h4: "saves (recursive_optimize_export ?P ''out.jpg'' big_file) \<noteq> [] \<and>
        save_JPEG ?P (att_image (last (saves (recursive_optimize_export ?P ''out.jpg'' big_file))))
          (att_quality (last (saves (recursive_optimize_export ?P ''out.jpg'' big_file))))
          = Inl ''encoder error''"
    by (simp add: late_failing_file_run late_failing_encoder_def)
  from T h4 have C: "returned (recursive_optimize_export ?P ''out.jpg'' big_file) = None" by blast
  have D: "snd (optimize_for_retail ?P ?I) =
      map (\<lambda>q. \<lparr>att_image = ?I, att_quality = q\<rparr>) [95, 90, 85, 80, 75]"
    "length (snd (optimize_export ?P (blob 2000) 1 10)) = 2"
    "length (saves (recursive_optimize_export ?P ''out.jpg'' big_file)) = 4"
    by (simp_all add: late_failing_retail_run late_failing_export_run late_failing_file_run)
  from A B C D show ?thesis by (simp add: prod_eq_iff)
qed




end
